theory Spec2Isabelle
  imports Main "HOL-Library.Word"
begin

unbundle bit_operations_syntax

section \<open>Basic types\<close>

text \<open>
  Go's \<^verbatim>\<open>time.Duration\<close> is an \<^verbatim>\<open>int64\<close> count of nanoseconds and Go's
  \<^verbatim>\<open>int\<close> is 64 bits wide on the supported targets: both are 64-bit words read
  as two's complement (\<open>sint\<close>), so \<open>+\<close>, \<open>-\<close> and unary minus wrap around
  as they do in Go.  A \<^verbatim>\<open>time.Time\<close> is an instant of the wall clock, modelled as the
  number of nanoseconds since the Unix epoch; \<^verbatim>\<open>Before\<close>, \<^verbatim>\<open>After\<close> and
  \<^verbatim>\<open>Equal\<close> compare instants.
\<close>

type_synonym duration = "64 word"
type_synonym go_int = "64 word"
type_synonym time = int

definition Time_Add :: "time \<Rightarrow> duration \<Rightarrow> time" where
  "Time_Add t d = t + sint d"

definition Time_Before :: "time \<Rightarrow> time \<Rightarrow> bool" where
  "Time_Before t u = (t < u)"

definition Time_After :: "time \<Rightarrow> time \<Rightarrow> bool" where
  "Time_After t u = (t > u)"

definition Time_Equal :: "time \<Rightarrow> time \<Rightarrow> bool" where
  "Time_Equal t u = (t = u)"

text \<open>\<^verbatim>\<open>Time.Sub\<close> saturates at the largest and the smallest duration.\<close>

definition Time_Sub :: "time \<Rightarrow> time \<Rightarrow> duration" where
  "Time_Sub t u =
     (if t - u > 2 ^ 63 - 1 then word_of_int (2 ^ 63 - 1)
      else if t - u < - (2 ^ 63) then word_of_int (- (2 ^ 63))
      else word_of_int (t - u))"

text \<open>The zero \<^verbatim>\<open>time.Time{}\<close> is 1 January of year 1, 00:00:00 UTC.\<close>

definition zero_Time :: time where
  "zero_Time = - 62135596800 * 1000000000"

definition Time_IsZero :: "time \<Rightarrow> bool" where
  "Time_IsZero t = (t = zero_Time)"

section \<open>Domain entities\<close>

subsection \<open>Tracks (internal/domain/track)\<close>

datatype RequesterType =
  RequesterTypeUser | RequesterTypeSystem | RequesterTypeOpening
| RequesterTypeEnding | RequesterTypeBGM

record Track =
  ID :: string
  Name :: string
  Artists :: "string list"
  Album :: string
  AlbumArtURL :: string
  Duration :: duration
  URL :: string
  Genres :: "string list"
  Popularity :: go_int
  Explicit :: bool
  Markets :: "string list"
  IsPlayable :: "bool option"

record Requester =
  requester_ID :: string
  requester_Name :: string
  requester_ExternalUserID :: string
  requester_Type :: RequesterType

record QueuedTrack =
  qt_Track :: Track
  qt_Requester :: Requester
  AddedAt :: time

subsection \<open>Listener sessions (internal/domain/listener)\<close>

record Session =
  session_ID :: string
  DisplayName :: string
  ExternalUserID :: string
  PendingTracks :: go_int
  IsKicked :: bool
  JoinedAt :: time
  VIPStatus :: bool
  RequestQuota :: go_int
  TotalRequests :: go_int
  LastRequestAt :: "time option"

text \<open>\<^verbatim>\<open>NewSession\<close> reads the clock once for \<^verbatim>\<open>JoinedAt\<close>.\<close>

definition NewSession :: "time \<Rightarrow> string \<Rightarrow> string \<Rightarrow> string \<Rightarrow> bool \<Rightarrow> Session" where
  "NewSession now ident displayName externalUserID isVIP =
     \<lparr> session_ID = ident, DisplayName = displayName, ExternalUserID = externalUserID,
       PendingTracks = 0, IsKicked = False, JoinedAt = now, VIPStatus = isVIP,
       RequestQuota = 0, TotalRequests = 0, LastRequestAt = None \<rparr>"

definition IncrementPendingTracks :: "time \<Rightarrow> Session \<Rightarrow> Session" where
  "IncrementPendingTracks now s =
     s\<lparr> PendingTracks := PendingTracks s + 1,
        TotalRequests := TotalRequests s + 1,
        LastRequestAt := Some now \<rparr>"

definition DecrementPendingTracks :: "Session \<Rightarrow> Session" where
  "DecrementPendingTracks s =
     (if 0 <s PendingTracks s then s\<lparr> PendingTracks := PendingTracks s - 1 \<rparr> else s)"

definition Kick :: "Session \<Rightarrow> Session" where
  "Kick s = s\<lparr> IsKicked := True \<rparr>"

definition CanRequest :: "Session \<Rightarrow> bool" where
  "CanRequest s =
     (if IsKicked s then False else if VIPStatus s then True else PendingTracks s = 0)"

text \<open>The operations that move the pending counter, and a run of them on one session.\<close>

datatype pending_op = IncrementPending time | DecrementPending

fun apply_pending_op :: "Session \<Rightarrow> pending_op \<Rightarrow> Session" where
  "apply_pending_op s (IncrementPending now) = IncrementPendingTracks now s"
| "apply_pending_op s DecrementPending = DecrementPendingTracks s"

definition run_pending_ops :: "Session \<Rightarrow> pending_op list \<Rightarrow> Session" where
  "run_pending_ops s ops = foldl apply_pending_op s ops"

section \<open>Filters (internal/app/filter)\<close>

record TrackRequest =
  ListenerID :: string
  TrackID :: string

record Result =
  Accepted :: bool
  Code :: string

definition Accept :: Result where
  "Accept = \<lparr> Accepted = True, Code = [] \<rparr>"

definition Reject :: "string \<Rightarrow> Result" where
  "Reject code = \<lparr> Accepted = False, Code = code \<rparr>"

subsection \<open>AcceptanceDoneFilter\<close>

text \<open>
  The filter holds six closures; \<^verbatim>\<open>Check\<close> calls each of them at most once, so the
  record holds the value each closure returns at the time of the check.
\<close>

record AcceptanceDoneFilter =
  isAccepting :: bool
  getEndTime :: "time option"
  getEndingDur :: duration
  getQueueDuration :: duration
  getCurrentRemain :: duration
  getNow :: time

definition AcceptanceDoneFilter_AppliesTo :: "RequesterType \<Rightarrow> bool" where
  "AcceptanceDoneFilter_AppliesTo requesterType = (requesterType = RequesterTypeUser)"

definition AcceptanceDoneFilter_Check ::
  "AcceptanceDoneFilter \<Rightarrow> TrackRequest \<Rightarrow> Track \<Rightarrow> Session \<Rightarrow> Result" where
  "AcceptanceDoneFilter_Check f req t l =
     (if \<not> isAccepting f then Reject ''acceptance_done''
      else case getEndTime f of
        None \<Rightarrow> Accept
      | Some endTime \<Rightarrow>
          (let endingDuration = getEndingDur f;
               deadline = Time_Add endTime (- endingDuration);
               now = getNow f
           in if Time_After now deadline then Reject ''time_limit_exceeded''
              else
                (let currentRemaining = getCurrentRemain f;
                     queueDuration = getQueueDuration f;
                     playbackStartTime =
                       Time_Add (Time_Add now currentRemaining) queueDuration
                 in if Time_After playbackStartTime deadline
                       \<or> Time_Equal playbackStartTime deadline
                    then Reject ''time_limit_exceeded''
                    else Accept)))"

text \<open>
  The acceptance gate as the specification words it: the deadline is the scheduled end
  minus the ending duration, the projected start is now plus the remaining time of the
  current track plus the queued duration.
\<close>

definition spec_AcceptanceGate ::
  "bool \<Rightarrow> int option \<Rightarrow> int \<Rightarrow> int \<Rightarrow> int \<Rightarrow> int \<Rightarrow> Result" where
  "spec_AcceptanceGate accepting scheduled_end ending_duration queued_duration
       current_remaining now =
     (if \<not> accepting then Reject ''acceptance_done''
      else case scheduled_end of
        None \<Rightarrow> Accept
      | Some e \<Rightarrow>
          if now > e - ending_duration
             \<or> now + current_remaining + queued_duration \<ge> e - ending_duration
          then Reject ''time_limit_exceeded''
          else Accept)"

section \<open>Notification hub (internal/app/notification, internal/api/connect)\<close>

text \<open>
  A notification carries a \<^verbatim>\<open>uint64\<close> sequence number, its type and the session and
  track snapshot; the snapshot is opaque here (type \<open>'a\<close>).
\<close>

datatype NotificationType =
  NOTIFICATION_TYPE_INITIAL_STATE | NOTIFICATION_TYPE_CHANGE_STATE
| NOTIFICATION_TYPE_CHANGE_TRACK

record 'a Notification =
  SequenceNo :: "64 word"
  Type :: NotificationType
  Info :: 'a

subsection \<open>The stream adapter of a subscriber\<close>

text \<open>
  \<^verbatim>\<open>notificationStreamAdapter\<close>: \<open>stream\<close> is what has been written to the
  subscriber's server stream so far, in order; \<open>buffer\<close> and \<open>ready\<close> are the
  adapter's fields.  \<^verbatim>\<open>Flush\<close> is one step here; in the source it sets
  \<open>ready\<close>, takes the buffer and releases the adapter's lock before it writes the
  buffered notifications, so a \<^verbatim>\<open>Send\<close> running meanwhile can write to the stream
  ahead of them.
\<close>

record 'a notificationStreamAdapter =
  stream :: "'a Notification list"
  buffer :: "'a Notification list"
  ready :: bool

definition new_adapter :: "'a notificationStreamAdapter" where
  "new_adapter = \<lparr> stream = [], buffer = [], ready = False \<rparr>"

definition stream_Send ::
  "'a Notification \<Rightarrow> 'a notificationStreamAdapter \<Rightarrow> 'a notificationStreamAdapter" where
  "stream_Send n a = a\<lparr> stream := stream a @ [n] \<rparr>"

definition adapter_Send ::
  "'a Notification \<Rightarrow> 'a notificationStreamAdapter \<Rightarrow> 'a notificationStreamAdapter" where
  "adapter_Send n a =
     (if \<not> ready a then a\<lparr> buffer := buffer a @ [n] \<rparr> else stream_Send n a)"

definition adapter_Flush :: "'a notificationStreamAdapter \<Rightarrow> 'a notificationStreamAdapter" where
  "adapter_Flush a = foldl (\<lambda>a n. stream_Send n a) (a\<lparr> ready := True, buffer := [] \<rparr>) (buffer a)"

subsection \<open>The manager\<close>

text \<open>
  \<^verbatim>\<open>subscriptions\<close> is a Go map from subscription id to the subscriber's stream;
  \<^verbatim>\<open>sequenceNo\<close> is the shared \<^verbatim>\<open>uint64\<close> counter, read and written only
  while \<^verbatim>\<open>sequenceNoMu\<close> is held, so each allocation is one atomic step.
\<close>

record 'a notification_Manager =
  subscriptions :: "string \<rightharpoonup> 'a notificationStreamAdapter"
  sequenceNo :: "64 word"

definition notification_NewManager :: "'a notification_Manager" where
  "notification_NewManager = \<lparr> subscriptions = Map.empty, sequenceNo = 0 \<rparr>"

text \<open>\<^verbatim>\<open>Subscribe\<close>: the fresh UUID is the argument \<open>sid\<close>.\<close>

definition Subscribe ::
  "string \<Rightarrow> 'a notificationStreamAdapter \<Rightarrow> 'a notification_Manager \<Rightarrow> string \<times> 'a notification_Manager" where
  "Subscribe sid st m = (sid, m\<lparr> subscriptions := (subscriptions m)(sid \<mapsto> st) \<rparr>)"

definition NextSequenceNo :: "'a notification_Manager \<Rightarrow> 64 word \<times> 'a notification_Manager" where
  "NextSequenceNo m = (sequenceNo m + 1, m\<lparr> sequenceNo := sequenceNo m + 1 \<rparr>)"

definition Unsubscribe :: "string \<Rightarrow> 'a notification_Manager \<Rightarrow> 'a notification_Manager" where
  "Unsubscribe sid m = m\<lparr> subscriptions := (subscriptions m)(sid := None) \<rparr>"

text \<open>
  \<^verbatim>\<open>Broadcast\<close> stamps the notification with the next sequence number and hands it
  to the \<^verbatim>\<open>Send\<close> of every subscriber.  The result is the stamped notification and
  the manager after all sends have completed.
\<close>

definition Broadcast ::
  "'a Notification \<Rightarrow> 'a notification_Manager \<Rightarrow> 'a Notification \<times> 'a notification_Manager" where
  "Broadcast notification m =
     (let currentSequenceNo = sequenceNo m + 1;
          m1 = m\<lparr> sequenceNo := currentSequenceNo \<rparr>;
          stamped = notification\<lparr> SequenceNo := currentSequenceNo \<rparr>
      in (stamped,
          m1\<lparr> subscriptions := (\<lambda>sid. map_option (adapter_Send stamped) (subscriptions m1 sid)) \<rparr>))"

text \<open>
  The operations that draw from the counter, and the sequence numbers a run of them
  hands out, in allocation order.
\<close>

datatype 'a seq_op = OpNextSequenceNo | OpBroadcast "'a Notification"

fun allocated :: "'a notification_Manager \<Rightarrow> 'a seq_op list \<Rightarrow> 64 word list" where
  "allocated m [] = []"
| "allocated m (OpNextSequenceNo # ops) =
     (case NextSequenceNo m of (n, m') \<Rightarrow> n # allocated m' ops)"
| "allocated m (OpBroadcast x # ops) =
     (case Broadcast x m of (stamped, m') \<Rightarrow> SequenceNo stamped # allocated m' ops)"

subsection \<open>The two critical sections of Broadcast\<close>

text \<open>
  \<^verbatim>\<open>Broadcast\<close> holds \<^verbatim>\<open>sequenceNoMu\<close> only while it takes the next number,
  and takes \<^verbatim>\<open>mu\<close> afterwards to copy the subscriptions it then sends to, so
  operations of other goroutines can run between the two.  \<open>Broadcast_allocate\<close>
  is the first critical section; \<open>Broadcast_fanout\<close> is the copy of the
  subscriptions followed by the \<^verbatim>\<open>Send\<close> to each copied subscriber.
\<close>

definition Broadcast_allocate ::
  "'a Notification \<Rightarrow> 'a notification_Manager \<Rightarrow> 'a Notification \<times> 'a notification_Manager" where
  "Broadcast_allocate notification m =
     (let currentSequenceNo = sequenceNo m + 1
      in (notification\<lparr> SequenceNo := currentSequenceNo \<rparr>,
          m\<lparr> sequenceNo := currentSequenceNo \<rparr>))"

definition Broadcast_fanout ::
  "'a Notification \<Rightarrow> 'a notification_Manager \<Rightarrow> 'a notification_Manager" where
  "Broadcast_fanout stamped m =
     m\<lparr> subscriptions := (\<lambda>sid. map_option (adapter_Send stamped) (subscriptions m sid)) \<rparr>"

subsection \<open>SubscribeNotifications\<close>

text \<open>
  The handler keeps a pointer to the adapter it has subscribed; here the adapter lives
  in the manager's map, and \<open>with_adapter\<close> is an update through that pointer.
  \<open>received\<close> is what has been written to a subscriber's stream.
\<close>

definition with_adapter ::
  "string \<Rightarrow> ('a notificationStreamAdapter \<Rightarrow> 'a notificationStreamAdapter)
     \<Rightarrow> 'a notification_Manager \<Rightarrow> 'a notification_Manager" where
  "with_adapter sid f m =
     m\<lparr> subscriptions := (subscriptions m)(sid := map_option f (subscriptions m sid)) \<rparr>"

definition received :: "string \<Rightarrow> 'a notification_Manager \<Rightarrow> 'a Notification list" where
  "received sid m = (case subscriptions m sid of None \<Rightarrow> [] | Some a \<Rightarrow> stream a)"

definition initialNotification :: "64 word \<Rightarrow> 'a \<Rightarrow> 'a Notification" where
  "initialNotification n status =
     \<lparr> SequenceNo = n, Type = NOTIFICATION_TYPE_INITIAL_STATE, Info = status \<rparr>"

text \<open>
  Modelled from the spec: the \<^verbatim>\<open>Subscribe\<close> that the buffering version of
  \<^verbatim>\<open>SubscribeNotifications\<close> calls, which returns the subscription id together
  with a sequence number; the source has only the \<^verbatim>\<open>Subscribe\<close> that returns the
  id.  The spec: ``Subscribers register with a Send callback, receiving an opaque
  subscription id and the next sequence number'', and ``subscribe, which allocates a
  sequence number and a per-subscriber buffer''.  It is the registration of the source
  followed by \<^verbatim>\<open>NextSequenceNo\<close>, as one step.
\<close>

definition Subscribe_sequenceNo ::
  "string \<Rightarrow> 'a notificationStreamAdapter \<Rightarrow> 'a notification_Manager
     \<Rightarrow> (string \<times> 64 word) \<times> 'a notification_Manager" where
  "Subscribe_sequenceNo sid st m =
     (case Subscribe sid st m of (subscriptionID, m1) \<Rightarrow>
        case NextSequenceNo m1 of (n, m2) \<Rightarrow> ((subscriptionID, n), m2))"

text \<open>
  The buffering version of the handler, up to the point where it waits for the end
  of the stream: it subscribes a fresh adapter, sends \<^verbatim>\<open>INITIAL_STATE\<close> with the
  number from the subscription straight to the stream, and flushes the adapter.
  \<open>status\<close> is the snapshot that \<^verbatim>\<open>GetStatus\<close> returned.  A send to the stream
  that fails ends the handler and the stream with it; the steps are those of a
  stream that stays open.
\<close>

definition SubscribeNotifications_subscribe ::
  "string \<Rightarrow> 'a notification_Manager \<Rightarrow> (string \<times> 64 word) \<times> 'a notification_Manager" where
  "SubscribeNotifications_subscribe sid m = Subscribe_sequenceNo sid new_adapter m"

definition SubscribeNotifications_send ::
  "string \<Rightarrow> 64 word \<Rightarrow> 'a \<Rightarrow> 'a notification_Manager \<Rightarrow> 'a notification_Manager" where
  "SubscribeNotifications_send subscriptionID n status m =
     with_adapter subscriptionID (stream_Send (initialNotification n status)) m"

definition SubscribeNotifications_flush ::
  "string \<Rightarrow> 'a notification_Manager \<Rightarrow> 'a notification_Manager" where
  "SubscribeNotifications_flush subscriptionID m = with_adapter subscriptionID adapter_Flush m"

text \<open>
  The earlier version of the handler takes the number with \<^verbatim>\<open>NextSequenceNo\<close>,
  sends \<^verbatim>\<open>INITIAL_STATE\<close> to the stream and subscribes an adapter for the stream
  afterwards.  The adapter of that version has the stream as its only field and its
  \<^verbatim>\<open>Send\<close> writes to the stream at once, which is what \<open>adapter_Send\<close> does at
  an adapter that is ready: \<open>direct_adapter sent\<close> is that adapter over a stream to
  which \<open>sent\<close> has been written.
\<close>

definition direct_adapter :: "'a Notification list \<Rightarrow> 'a notificationStreamAdapter" where
  "direct_adapter sent = \<lparr> stream = sent, buffer = [], ready = True \<rparr>"

definition SubscribeNotifications_earlier_send ::
  "string \<Rightarrow> 64 word \<Rightarrow> 'a \<Rightarrow> 'a notification_Manager \<Rightarrow> string \<times> 'a notification_Manager" where
  "SubscribeNotifications_earlier_send sid n status m =
     Subscribe sid (direct_adapter [initialNotification n status]) m"

text \<open>
  A run of broadcasts, each completed before the next operation begins, and the
  notifications it sends: the \<open>k\<close>-th is stamped with the \<open>k\<close>-th number above
  the counter.
\<close>

definition Broadcast_all :: "'a Notification list \<Rightarrow> 'a notification_Manager \<Rightarrow> 'a notification_Manager" where
  "Broadcast_all bs m = foldl (\<lambda>m b. snd (Broadcast b m)) m bs"

fun stamped_from :: "64 word \<Rightarrow> 'a Notification list \<Rightarrow> 'a Notification list" where
  "stamped_from k [] = []"
| "stamped_from k (b # bs) = b\<lparr> SequenceNo := k + 1 \<rparr> # stamped_from (k + 1) bs"

text \<open>
  The buffering handler with completed broadcasts between its steps and after them.
\<close>

definition SubscribeNotifications_among ::
  "string \<Rightarrow> 'a \<Rightarrow> 'a Notification list \<Rightarrow> 'a Notification list \<Rightarrow> 'a Notification list
     \<Rightarrow> 'a notification_Manager \<Rightarrow> 'a notification_Manager" where
  "SubscribeNotifications_among sid status bs1 bs2 bs3 m =
     (case SubscribeNotifications_subscribe sid m of ((subscriptionID, n), m1) \<Rightarrow>
        Broadcast_all bs3
          (SubscribeNotifications_flush subscriptionID
             (Broadcast_all bs2
                (SubscribeNotifications_send subscriptionID n status
                   (Broadcast_all bs1 m1)))))"

text \<open>
  What the subscriber is promised about its stream: it begins with
  \<^verbatim>\<open>INITIAL_STATE\<close>, and nothing after it is numbered below it.
\<close>

definition initial_state_first :: "'a Notification list \<Rightarrow> bool" where
  "initial_state_first ns =
     (case ns of
        [] \<Rightarrow> False
      | n # rest \<Rightarrow> Type n = NOTIFICATION_TYPE_INITIAL_STATE
          \<and> list_all (\<lambda>k. SequenceNo n \<le> SequenceNo k) rest)"
section \<open>Playback controller (internal/app/playback)\<close>

datatype State = StateIdle | StatePlaying | StatePaused

datatype EventType =
  EventTrackStarted | EventTrackEnded | EventTrackSkipped
| EventStateChanged | EventQueueDepleting | EventQueueEmpty

record Event =
  ev_Type :: EventType
  ev_Track :: "QueuedTrack option"
  ev_State :: State

datatype playback_error = ErrNoTrack | ErrQueueEmpty | ErrNotPlaying | ErrNotPaused

record Config =
  DepletionThresholdSec :: go_int
  NotificationDelay :: duration
  GapCorrection :: duration

text \<open>
  A wall-clock timer is a goroutine that runs its callback once the duration has
  passed, unless it has been cancelled; the controller keeps the cancel function of the
  latest timer of each kind.  In the model such a field holds the timer it cancels:
  its duration and which callback it runs.  The callbacks are the four closures the
  controller passes to \<^verbatim>\<open>startWallClockTimer\<close>.
\<close>

datatype callback =
  CallOnTrackEnd
| CallCheckDepletion
| CallTrackStartedFor string
| CallTrackStarted

datatype timer = Timer duration callback

record Controller =
  queue :: "QueuedTrack list"
  played :: "QueuedTrack list"
  currentTrack :: "QueuedTrack option"
  state :: State
  startTime :: time
  scheduledStartTime :: time
  notificationTime :: time
  pausedAt :: "time option"
  pausedElapsed :: duration
  timerCancel :: "timer option"
  depletionTimerCancel :: "timer option"
  notificationDelayTimerCancel :: "timer option"
  config :: Config
  eventCh :: "Event list"
  depletionNotified :: bool

text \<open>The event channel is created with room for ten events.\<close>

definition eventCh_capacity :: nat where
  "eventCh_capacity = 10"

definition NewController :: "Config \<Rightarrow> Controller" where
  "NewController cfg =
     \<lparr> queue = [], played = [], currentTrack = None, state = StateIdle,
       startTime = zero_Time, scheduledStartTime = zero_Time, notificationTime = zero_Time,
       pausedAt = None, pausedElapsed = 0,
       timerCancel = None, depletionTimerCancel = None, notificationDelayTimerCancel = None,
       config = cfg, eventCh = [], depletionNotified = False \<rparr>"

text \<open>
  \<^verbatim>\<open>sendEventLocked\<close> is a non-blocking send: the event is dropped when the channel
  is full.  The controller is modelled while its context is live (before
  \<^verbatim>\<open>Close\<close>), so the \<^verbatim>\<open>ctx.Done()\<close> case of the select is never ready.
\<close>

definition sendEventLocked :: "Event \<Rightarrow> Controller \<Rightarrow> Controller" where
  "sendEventLocked e c =
     (if length (eventCh c) < eventCh_capacity then c\<lparr> eventCh := eventCh c @ [e] \<rparr> else c)"

text \<open>
  \<^verbatim>\<open>toWallTime\<close> strips the monotonic reading and keeps the instant.  Every
  operation of the controller runs under the controller's lock; the model reads the
  clock once per operation (argument \<open>now\<close>).
\<close>

definition toWallTime :: "time \<Rightarrow> time" where
  "toWallTime t = t"

definition startWallClockTimer :: "duration \<Rightarrow> callback \<Rightarrow> timer option" where
  "startWallClockTimer d cb = Some (Timer d cb)"

definition startTrackTimer :: "duration \<Rightarrow> Controller \<Rightarrow> Controller" where
  "startTrackTimer d c = c\<lparr> timerCancel := startWallClockTimer d CallOnTrackEnd \<rparr>"

definition getRemainingDurationLocked :: "time \<Rightarrow> Controller \<Rightarrow> duration" where
  "getRemainingDurationLocked tnow c =
     (case currentTrack c of
        None \<Rightarrow> 0
      | Some ct \<Rightarrow>
          (let now = toWallTime tnow
           in if Time_Before now (startTime c) then Duration (qt_Track ct)
              else
                (let elapsed0 = Time_Sub now (startTime c) - pausedElapsed c;
                     elapsed =
                       (case pausedAt c of
                          Some p \<Rightarrow>
                            if state c = StatePaused then elapsed0 - Time_Sub now p else elapsed0
                        | None \<Rightarrow> elapsed0);
                     remaining = Duration (qt_Track ct) - elapsed
                 in if remaining <s 0 then 0 else remaining)))"

definition GetRemainingDuration :: "time \<Rightarrow> Controller \<Rightarrow> duration" where
  "GetRemainingDuration tnow c = getRemainingDurationLocked tnow c"

text \<open>The local variable \<^verbatim>\<open>totalRemaining\<close> of \<^verbatim>\<open>checkDepletionLocked\<close>.\<close>

definition totalRemaining :: "time \<Rightarrow> Controller \<Rightarrow> duration" where
  "totalRemaining tnow c =
     foldl (\<lambda>total qt. total + Duration (qt_Track qt))
       (if currentTrack c \<noteq> None then getRemainingDurationLocked tnow c else 0)
       (queue c)"

definition depletion_threshold :: "Controller \<Rightarrow> duration" where
  "depletion_threshold c = DepletionThresholdSec (config c) * 1000000000"

definition checkDepletionLocked :: "time \<Rightarrow> Controller \<Rightarrow> Controller" where
  "checkDepletionLocked tnow c =
     (if depletionNotified c then c
      else
        (let c1 = c\<lparr> depletionTimerCancel := None \<rparr>;
             total = totalRemaining tnow c1;
             threshold = depletion_threshold c1
         in if total <s threshold \<and> 0 <s total
            then sendEventLocked
                   \<lparr> ev_Type = EventQueueDepleting, ev_Track = currentTrack c1, ev_State = state c1 \<rparr>
                   (c1\<lparr> depletionNotified := True \<rparr>)
            else if threshold <s total \<and> state c1 = StatePlaying
            then c1\<lparr> depletionTimerCancel :=
                       startWallClockTimer (total - threshold) CallCheckDepletion \<rparr>
            else c1))"

definition playNextLocked :: "time \<Rightarrow> bool \<Rightarrow> Controller \<Rightarrow> playback_error option \<times> Controller" where
  "playNextLocked tnow isContinuous c =
     (case queue c of
        [] \<Rightarrow>
          (Some ErrQueueEmpty,
           sendEventLocked \<lparr> ev_Type = EventQueueEmpty, ev_Track = None, ev_State = StateIdle \<rparr>
             (c\<lparr> state := StateIdle \<rparr>))
      | qt # rest \<Rightarrow>
          (let c1 = c\<lparr> queue := rest \<rparr>;
               c2 = (case currentTrack c1 of
                       Some ct \<Rightarrow> c1\<lparr> played := played c1 @ [ct] \<rparr>
                     | None \<Rightarrow> c1);
               c3 = c2\<lparr> currentTrack := Some qt, pausedAt := None, pausedElapsed := 0,
                        state := StatePlaying \<rparr>;
               notificationDelay = NotificationDelay (config c3);
               gapCorrection = GapCorrection (config c3);
               startBase = (if 0 <s gapCorrection then Time_Add (toWallTime tnow) gapCorrection
                            else toWallTime tnow);
               c4 = c3\<lparr> scheduledStartTime := startBase, startTime := startBase \<rparr>;
               c5 = startTrackTimer (Duration (qt_Track qt) + gapCorrection) c4;
               c6 = checkDepletionLocked tnow c5
           in if 0 <s notificationDelay
              then (None,
                    c6\<lparr> notificationTime := Time_Add (scheduledStartTime c6) notificationDelay,
                        notificationDelayTimerCancel :=
                          startWallClockTimer (notificationDelay + gapCorrection)
                            (CallTrackStartedFor (ID (qt_Track qt))) \<rparr>)
              else (None,
                    sendEventLocked
                      \<lparr> ev_Type = EventTrackStarted, ev_Track = currentTrack c6, ev_State = state c6 \<rparr>
                      c6)))"

definition onTrackEndLocked :: "time \<Rightarrow> Controller \<Rightarrow> Controller" where
  "onTrackEndLocked tnow c =
     (case currentTrack c of
        None \<Rightarrow> c
      | Some endedTrack \<Rightarrow>
          (let c1 = c\<lparr> timerCancel := None \<rparr>;
               c2 = c1\<lparr> played := played c1 @ [endedTrack] \<rparr>;
               c3 = c2\<lparr> currentTrack := None, pausedAt := None, pausedElapsed := 0 \<rparr>;
               c4 = sendEventLocked
                      \<lparr> ev_Type = EventTrackEnded, ev_Track = Some endedTrack, ev_State = state c3 \<rparr>
                      c3
           in snd (playNextLocked tnow True c4)))"


definition resumeLocked :: "time \<Rightarrow> Controller \<Rightarrow> playback_error option \<times> Controller" where
  "resumeLocked tnow c =
     (if currentTrack c = None then (Some ErrNoTrack, c)
      else if state c \<noteq> StatePaused then (Some ErrNotPaused, c)
      else
        (let c1 = (case pausedAt c of
                     Some p \<Rightarrow> c\<lparr> pausedElapsed := pausedElapsed c + Time_Sub tnow p \<rparr>
                   | None \<Rightarrow> c);
             c2 = c1\<lparr> pausedAt := None, state := StatePlaying \<rparr>;
             remaining = getRemainingDurationLocked tnow c2
         in if remaining \<le>s 0 then (None, onTrackEndLocked tnow c2)
            else
              (let now = toWallTime tnow;
                   c3 = (if \<not> Time_IsZero (notificationTime c2)
                            \<and> Time_Before now (notificationTime c2)
                         then c2\<lparr> notificationDelayTimerCancel :=
                                    startWallClockTimer (Time_Sub (notificationTime c2) now)
                                      CallTrackStarted \<rparr>
                         else c2);
                   c4 = startTrackTimer remaining c3;
                   c5 = checkDepletionLocked tnow c4
               in (None,
                   sendEventLocked
                     \<lparr> ev_Type = EventStateChanged, ev_Track = currentTrack c5, ev_State = state c5 \<rparr>
                     c5))))"

definition Resume :: "time \<Rightarrow> Controller \<Rightarrow> playback_error option \<times> Controller" where
  "Resume tnow c = resumeLocked tnow c"

definition Play :: "time \<Rightarrow> Controller \<Rightarrow> playback_error option \<times> Controller" where
  "Play tnow c =
     (if state c = StatePlaying then (None, c)
      else if state c = StatePaused then resumeLocked tnow c
      else playNextLocked tnow False c)"

definition Pause :: "time \<Rightarrow> Controller \<Rightarrow> playback_error option \<times> Controller" where
  "Pause tnow c =
     (if currentTrack c = None then (Some ErrNoTrack, c)
      else if state c \<noteq> StatePlaying then (Some ErrNotPlaying, c)
      else
        (let c1 = c\<lparr> timerCancel := None, depletionTimerCancel := None,
                      notificationDelayTimerCancel := None \<rparr>;
             now = toWallTime tnow;
             c2 = (if Time_Before now (startTime c1)
                   then c1\<lparr> pausedElapsed := pausedElapsed c1 + Time_Sub (startTime c1) now,
                            startTime := now \<rparr>
                   else c1);
             c3 = c2\<lparr> pausedAt := Some now, state := StatePaused \<rparr>
         in (None,
             sendEventLocked
               \<lparr> ev_Type = EventStateChanged, ev_Track = currentTrack c3, ev_State = state c3 \<rparr>
               c3)))"

definition Skip :: "time \<Rightarrow> Controller \<Rightarrow> playback_error option \<times> Controller" where
  "Skip tnow c =
     (case currentTrack c of
        None \<Rightarrow> (Some ErrNoTrack, c)
      | Some skippedTrack \<Rightarrow>
          (let c1 = c\<lparr> timerCancel := None, notificationDelayTimerCancel := None \<rparr>;
               c2 = c1\<lparr> currentTrack := None, state := StateIdle, pausedAt := None,
                        pausedElapsed := 0, notificationTime := zero_Time \<rparr>;
               c3 = sendEventLocked
                      \<lparr> ev_Type = EventTrackSkipped, ev_Track = Some skippedTrack, ev_State = state c2 \<rparr>
                      c2
           in playNextLocked tnow False c3))"

definition Stop :: "Controller \<Rightarrow> playback_error option \<times> Controller" where
  "Stop c =
     (None,
      c\<lparr> timerCancel := None, depletionTimerCancel := None,
         currentTrack := None, state := StateIdle, pausedAt := None, pausedElapsed := 0,
         notificationTime := zero_Time \<rparr>)"

definition Enqueue :: "time \<Rightarrow> QueuedTrack \<Rightarrow> Controller \<Rightarrow> Controller" where
  "Enqueue tnow qt c =
     checkDepletionLocked tnow (c\<lparr> queue := queue c @ [qt], depletionNotified := False \<rparr>)"


definition ClearQueue :: "Controller \<Rightarrow> QueuedTrack list \<times> Controller" where
  "ClearQueue c = (queue c, c\<lparr> queue := [] \<rparr>)"

definition GetState :: "Controller \<Rightarrow> State" where
  "GetState c = state c"

definition GetCurrentTrack :: "Controller \<Rightarrow> QueuedTrack option" where
  "GetCurrentTrack c = currentTrack c"

definition IsQueueEmpty :: "Controller \<Rightarrow> bool" where
  "IsQueueEmpty c = (length (queue c) = 0)"

definition GetAllTrackIDs :: "Controller \<Rightarrow> string list" where
  "GetAllTrackIDs c =
     map (\<lambda>qt. ID (qt_Track qt)) (played c)
     @ (case currentTrack c of Some ct \<Rightarrow> [ID (qt_Track ct)] | None \<Rightarrow> [])
     @ map (\<lambda>qt. ID (qt_Track qt)) (queue c)"

definition IsInQueue :: "string \<Rightarrow> Controller \<Rightarrow> bool" where
  "IsInQueue trackID c =
     (case currentTrack c of
        Some ct \<Rightarrow>
          if ID (qt_Track ct) = trackID then True
          else list_ex (\<lambda>qt. ID (qt_Track qt) = trackID) (queue c)
      | None \<Rightarrow> list_ex (\<lambda>qt. ID (qt_Track qt) = trackID) (queue c))"

definition GetAllTracks :: "Controller \<Rightarrow> QueuedTrack list" where
  "GetAllTracks c =
     played c @ (case currentTrack c of Some ct \<Rightarrow> [ct] | None \<Rightarrow> []) @ queue c"

definition GetTotalDuration :: "Controller \<Rightarrow> duration" where
  "GetTotalDuration c = foldl (\<lambda>total qt. total + Duration (qt_Track qt)) 0 (queue c)"









text \<open>
  Everything about the track being played is the same in two states of the controller:
  the current track, the playback state, the played history, the virtual clock and the
  timers of the track end and of the delayed start notification.
\<close>

definition playing_unchanged :: "Controller \<Rightarrow> Controller \<Rightarrow> bool" where
  "playing_unchanged c c' \<longleftrightarrow>
     currentTrack c' = currentTrack c \<and> state c' = state c \<and> played c' = played c
     \<and> startTime c' = startTime c \<and> scheduledStartTime c' = scheduledStartTime c
     \<and> notificationTime c' = notificationTime c
     \<and> pausedAt c' = pausedAt c \<and> pausedElapsed c' = pausedElapsed c
     \<and> timerCancel c' = timerCancel c
     \<and> notificationDelayTimerCancel c' = notificationDelayTimerCancel c
     \<and> config c' = config c"

section \<open>DuplicateTrackFilter (internal/app/filter)\<close>

subsection \<open>Strings\<close>

text \<open>
  Strings are byte strings, as in Go.  \<^verbatim>\<open>strings.ToLower\<close>,
  \<^verbatim>\<open>strings.EqualFold\<close> and \<^verbatim>\<open>strings.TrimSpace\<close> read a string as UTF-8 and
  work on its runes (code points).  \<open>DecodeRuneInString\<close> is the decoder of
  \<^verbatim>\<open>unicode/utf8\<close>: it returns the first rune and its width in bytes, and
  \<^verbatim>\<open>RuneError\<close> with width 1 for a byte that begins no well-formed encoding.
\<close>

type_synonym rune = int

definition byte :: "char \<Rightarrow> int" where
  "byte c = of_char c"

definition RuneError :: rune where
  "RuneError = 65533"

fun DecodeRuneInString :: "string \<Rightarrow> rune \<times> nat" where
  "DecodeRuneInString [] = (RuneError, 0)"
| "DecodeRuneInString (p0 # ps) =
     (let b0 = byte p0
      in if b0 < 128 then (b0, 1)
         else if b0 < 194 \<or> 244 < b0 then (RuneError, 1)
         else
           (let sz = (if b0 < 224 then 2 else if b0 < 240 then 3 else 4 :: nat);
                lo = (if b0 = 224 then 160 else if b0 = 240 then 144 else 128 :: int);
                hi = (if b0 = 237 then 159 else if b0 = 244 then 143 else 191 :: int)
            in if length (p0 # ps) < sz then (RuneError, 1)
               else
                 (let b1 = byte (ps ! 0)
                  in if b1 < lo \<or> hi < b1 then (RuneError, 1)
                     else if sz \<le> 2 then ((b0 mod 32) * 64 + b1 mod 64, 2)
                     else
                       (let b2 = byte (ps ! 1)
                        in if b2 < 128 \<or> 191 < b2 then (RuneError, 1)
                           else if sz \<le> 3
                           then ((b0 mod 16) * 4096 + (b1 mod 64) * 64 + b2 mod 64, 3)
                           else
                             (let b3 = byte (ps ! 2)
                              in if b3 < 128 \<or> 191 < b3 then (RuneError, 1)
                                 else ((b0 mod 8) * 262144 + (b1 mod 64) * 4096
                                         + (b2 mod 64) * 64 + b3 mod 64, 4))))))"

text \<open>
  The runes of a string in order, as a \<^verbatim>\<open>range\<close> loop over the string yields them,
  each with the bytes it was decoded from.
\<close>

fun runes :: "string \<Rightarrow> (rune \<times> string) list" where
  "runes [] = []"
| "runes (p0 # ps) =
     (let size = snd (DecodeRuneInString (p0 # ps))
      in (fst (DecodeRuneInString (p0 # ps)), take size (p0 # ps)) # runes (drop (size - 1) ps))"

text \<open>
  \<^verbatim>\<open>utf8.AppendRune\<close>: the encoding of a rune; a surrogate or a value outside
  0 to \<^verbatim>\<open>MaxRune\<close> is written as \<^verbatim>\<open>RuneError\<close>.
\<close>

definition EncodeRune :: "rune \<Rightarrow> string" where
  "EncodeRune r =
     (if 0 \<le> r \<and> r \<le> 127 then [char_of r]
      else if 0 \<le> r \<and> r \<le> 2047 then [char_of (192 + r div 64), char_of (128 + r mod 64)]
      else
        (let r3 = (if r < 0 \<or> 1114111 < r \<or> (55296 \<le> r \<and> r \<le> 57343)
                   then RuneError else r)
         in if r3 \<le> 65535
            then [char_of (224 + r3 div 4096), char_of (128 + (r3 div 64) mod 64),
                  char_of (128 + r3 mod 64)]
            else [char_of (240 + r3 div 262144), char_of (128 + (r3 div 4096) mod 64),
                  char_of (128 + (r3 div 64) mod 64), char_of (128 + r3 mod 64)]))"

text \<open>
  The tables of Go's \<^verbatim>\<open>unicode\<close> package are a parameter: the lower-case mapping
  of \<^verbatim>\<open>unicode.ToLower\<close>, the orbit of a rune under simple case folding (the code
  points \<^verbatim>\<open>unicode.SimpleFold\<close> iterates over, starting from the rune), and the
  property \<^verbatim>\<open>White_Space\<close>.  They are consulted only where the package consults
  them: outside ASCII for the case mappings, outside Latin-1 for the white space.
\<close>

record unicode_tables =
  CaseRanges_ToLower :: "rune \<Rightarrow> rune"
  SimpleFold_orbit :: "rune \<Rightarrow> rune list"
  White_Space :: "rune \<Rightarrow> bool"

definition unicode_ToLower :: "unicode_tables \<Rightarrow> rune \<Rightarrow> rune" where
  "unicode_ToLower U r =
     (if r \<le> 127 then (if 65 \<le> r \<and> r \<le> 90 then r + 32 else r)
      else CaseRanges_ToLower U r)"

definition unicode_IsSpace :: "unicode_tables \<Rightarrow> rune \<Rightarrow> bool" where
  "unicode_IsSpace U r =
     (if r \<le> 255
      then r = 9 \<or> r = 10 \<or> r = 11 \<or> r = 12 \<or> r = 13 \<or> r = 32 \<or> r = 133 \<or> r = 160
      else White_Space U r)"

text \<open>
  \<^verbatim>\<open>strings.Map\<close> writes the encoding of the image of every rune (an ill-formed
  byte is read as \<^verbatim>\<open>RuneError\<close>) and drops a rune whose image is negative.  \<^verbatim>\<open>strings.ToLower\<close> maps the bytes of a
  string that is all ASCII and calls \<^verbatim>\<open>Map\<close> with \<^verbatim>\<open>unicode.ToLower\<close>
  otherwise.
\<close>

definition lower_char :: "char \<Rightarrow> char" where
  "lower_char c = (if 65 \<le> byte c \<and> byte c \<le> 90 then char_of (byte c + 32) else c)"

definition strings_Map :: "(rune \<Rightarrow> rune) \<Rightarrow> string \<Rightarrow> string" where
  "strings_Map mapping s =
     concat (map (\<lambda>(c, bs). if 0 \<le> mapping c then EncodeRune (mapping c) else []) (runes s))"

definition ToLower :: "unicode_tables \<Rightarrow> string \<Rightarrow> string" where
  "ToLower U s =
     (if list_all (\<lambda>c. byte c < 128) s then map lower_char s
      else strings_Map (unicode_ToLower U) s)"

text \<open>
  \<^verbatim>\<open>strings.EqualFold\<close> compares the two strings rune by rune.  Two runes match
  when they are equal, when both are ASCII and are the upper and the lower case of one
  letter, or, when one of them is not ASCII, when the larger one is in the orbit of the
  smaller one.
\<close>

definition fold_equal :: "unicode_tables \<Rightarrow> rune \<Rightarrow> rune \<Rightarrow> bool" where
  "fold_equal U sr tr =
     (sr = tr
      \<or> (let lo = min sr tr; hi = max sr tr
         in if hi < 128 then 65 \<le> lo \<and> lo \<le> 90 \<and> hi = lo + 32
            else hi \<in> set (SimpleFold_orbit U lo)))"

fun EqualFold_runes :: "unicode_tables \<Rightarrow> rune list \<Rightarrow> rune list \<Rightarrow> bool" where
  "EqualFold_runes U [] t = (t = [])"
| "EqualFold_runes U (sr # s) [] = False"
| "EqualFold_runes U (sr # s) (tr # t) = (fold_equal U sr tr \<and> EqualFold_runes U s t)"

definition EqualFold :: "unicode_tables \<Rightarrow> string \<Rightarrow> string \<Rightarrow> bool" where
  "EqualFold U s t = EqualFold_runes U (map fst (runes s)) (map fst (runes t))"

text \<open>
  \<^verbatim>\<open>strings.TrimSpace\<close> removes the leading and the trailing runes that are white
  space (\<^verbatim>\<open>unicode.IsSpace\<close>).  \<^verbatim>\<open>strings.TrimRight\<close> with an ASCII cutset
  removes the trailing bytes that are in the cutset.
\<close>

definition TrimSpace :: "unicode_tables \<Rightarrow> string \<Rightarrow> string" where
  "TrimSpace U s =
     concat (map snd
       (rev (dropWhile (\<lambda>(r, bs). unicode_IsSpace U r)
          (rev (dropWhile (\<lambda>(r, bs). unicode_IsSpace U r) (runes s))))))"

definition TrimRightFunc :: "(char \<Rightarrow> bool) \<Rightarrow> string \<Rightarrow> string" where
  "TrimRightFunc p s = rev (dropWhile p (rev s))"

definition TrimRight :: "string \<Rightarrow> string \<Rightarrow> string" where
  "TrimRight s cutset = TrimRightFunc (\<lambda>c. c \<in> set cutset) s"

subsection \<open>Regular expressions\<close>

text \<open>
  The fragment of Go's \<^verbatim>\<open>regexp\<close> syntax that the filter's patterns use: a pattern
  is a sequence of items; an item is a repetition of a character class (\<open>x\<close>, \<open>x?\<close>,
  \<open>x*\<close>, \<open>x+\<close>, \<open>x{n}\<close>, \<open>x{n,m}\<close>, greedy or lazy as in \<open>.*?\<close>) or an optional
  group \<open>(...)?\<close>.  The classes are a literal character, \<open>\s\<close> (tab, line feed, form
  feed, carriage return, space), \<open>\d\<close> and \<open>.\<close> (any character but line feed).
  The patterns are matched on the bytes of the string: their literals and the classes
  \<open>\s\<close> and \<open>\d\<close> are ASCII, every pattern begins with one of them after
  \<open>\s*\<close> and every \<open>.*?\<close> is followed by one, so a match begins and ends at an
  ASCII byte, where a rune begins and ends.
\<close>

datatype cclass = Lit char | Space | Digit | AnyChar

fun in_class :: "cclass \<Rightarrow> char \<Rightarrow> bool" where
  "in_class (Lit x) c = (c = x)"
| "in_class Space c = (byte c = 9 \<or> byte c = 10 \<or> byte c = 12 \<or> byte c = 13 \<or> byte c = 32)"
| "in_class Digit c = (48 \<le> byte c \<and> byte c \<le> 57)"
| "in_class AnyChar c = (byte c \<noteq> 10)"

datatype re = Rep cclass nat "nat option" bool | Opt "re list"

fun re_size :: "re \<Rightarrow> nat" where
  "re_size (Rep cls lo hi greedy) = 1"
| "re_size (Opt g) = Suc (sum_list (map re_size g))"

definition pattern_size :: "re list \<Rightarrow> nat" where
  "pattern_size rs = sum_list (map re_size rs)"

definition dec :: "nat option \<Rightarrow> nat option" where
  "dec hi = map_option (\<lambda>h. h - 1) hi"

text \<open>
  Go's \<^verbatim>\<open>regexp\<close> returns the match a backtracking search finds first
  (leftmost-first).  \<open>re_match p s\<close> is that search for a match of \<open>p\<close> at the start
  of \<open>s\<close>: it returns the input left after the match, \<open>None\<close> if there is no match
  at this position.
\<close>

function re_match :: "re list \<Rightarrow> string \<Rightarrow> string option" where
  "re_match [] s = Some s"
| "re_match (Opt g # rs) s =
     (case re_match (g @ rs) s of Some r \<Rightarrow> Some r | None \<Rightarrow> re_match rs s)"
| "re_match (Rep cls lo hi greedy # rs) [] = (if lo = 0 then re_match rs [] else None)"
| "re_match (Rep cls lo hi greedy # rs) (c # s) =
     (if hi \<noteq> Some 0 \<and> in_class cls c then
        (if 0 < lo then re_match (Rep cls (lo - 1) (dec hi) greedy # rs) s
         else if greedy then
           (case re_match (Rep cls 0 (dec hi) greedy # rs) s of
              Some r \<Rightarrow> Some r
            | None \<Rightarrow> re_match rs (c # s))
         else
           (case re_match rs (c # s) of
              Some r \<Rightarrow> Some r
            | None \<Rightarrow> re_match (Rep cls 0 (dec hi) greedy # rs) s))
      else if lo = 0 then re_match rs (c # s) else None)"
  by pat_completeness auto
termination
  by (relation "measures [\<lambda>(rs, s). length s, \<lambda>(rs, s). pattern_size rs]")
     (auto simp: pattern_size_def)

text \<open>
  \<^verbatim>\<open>ReplaceAllString\<close>: scanning from the left, every match is replaced and the scan
  goes on after it; a character at which the pattern does not match is kept.  (A match
  of the empty string replaces nothing; none of the patterns below has one.)
\<close>

function ReplaceAllString :: "re list \<Rightarrow> string \<Rightarrow> string \<Rightarrow> string" where
  "ReplaceAllString p [] repl = []"
| "ReplaceAllString p (c # s) repl =
     (case re_match p (c # s) of
        Some r \<Rightarrow>
          if length r < length (c # s) then repl @ ReplaceAllString p r repl
          else c # ReplaceAllString p s repl
      | None \<Rightarrow> c # ReplaceAllString p s repl)"
  by pat_completeness auto
termination
  by (relation "measure (\<lambda>(p, s, repl). length s)") auto

text \<open>Building patterns.\<close>

definition lit :: "string \<Rightarrow> re list" where
  "lit s = map (\<lambda>c. Rep (Lit c) 1 (Some 1) True) s"

definition star :: "cclass \<Rightarrow> re" where
  "star cls = Rep cls 0 None True"

definition plus :: "cclass \<Rightarrow> re" where
  "plus cls = Rep cls 1 None True"

definition lazy_star :: "cclass \<Rightarrow> re" where
  "lazy_star cls = Rep cls 0 None False"

definition opt :: "cclass \<Rightarrow> re" where
  "opt cls = Rep cls 0 (Some 1) True"

text \<open>
  The six remaster patterns, in the order of the source:
  \<^verbatim>\<open>\s*-?\s*\d{4}\s+remaster(ed)?\<close>,
  \<^verbatim>\<open>\s*\(remaster(ed)?\s*\d{0,4}\)\<close>,
  \<^verbatim>\<open>\s*\[remaster(ed)?\s*\d{0,4}\]\<close>,
  \<^verbatim>\<open>\s*-?\s*remaster(ed)?(\s+version)?\<close>,
  \<^verbatim>\<open>\s*\(.*?remaster.*?\)\<close> and
  \<^verbatim>\<open>\s*\[.*?remaster.*?\]\<close>.
\<close>

definition remasterPatterns :: "re list list" where
  "remasterPatterns =
     [ [star Space, opt (Lit CHR ''-''), star Space, Rep Digit 4 (Some 4) True, plus Space]
         @ lit ''remaster'' @ [Opt (lit ''ed'')],
       [star Space] @ lit ''(remaster'' @ [Opt (lit ''ed''), star Space,
          Rep Digit 0 (Some 4) True] @ lit '')'',
       [star Space] @ lit ''[remaster'' @ [Opt (lit ''ed''), star Space,
          Rep Digit 0 (Some 4) True] @ lit '']'',
       [star Space, opt (Lit CHR ''-''), star Space] @ lit ''remaster''
         @ [Opt (lit ''ed''), Opt (plus Space # lit ''version'')],
       [star Space] @ lit ''('' @ [lazy_star AnyChar] @ lit ''remaster''
         @ [lazy_star AnyChar] @ lit '')'',
       [star Space] @ lit ''['' @ [lazy_star AnyChar] @ lit ''remaster''
         @ [lazy_star AnyChar] @ lit '']'' ]"

text \<open>
  The six version patterns:
  \<^verbatim>\<open>\s*\(.*?version\)\<close>,
  \<^verbatim>\<open>\s*\(.*?edit\)\<close>,
  \<^verbatim>\<open>\s*-?\s*live\<close>,
  \<^verbatim>\<open>\s*\(live\)\<close>,
  \<^verbatim>\<open>\s*-?\s*radio\s+edit\<close> and
  \<^verbatim>\<open>\s*-?\s*single\s+version\<close>.
\<close>

definition versionPatterns :: "re list list" where
  "versionPatterns =
     [ [star Space] @ lit ''('' @ [lazy_star AnyChar] @ lit ''version)'',
       [star Space] @ lit ''('' @ [lazy_star AnyChar] @ lit ''edit)'',
       [star Space, opt (Lit CHR ''-''), star Space] @ lit ''live'',
       [star Space] @ lit ''(live)'',
       [star Space, opt (Lit CHR ''-''), star Space] @ lit ''radio'' @ [plus Space] @ lit ''edit'',
       [star Space, opt (Lit CHR ''-''), star Space] @ lit ''single'' @ [plus Space]
         @ lit ''version'' ]"

definition normalizeTrackName :: "unicode_tables \<Rightarrow> string \<Rightarrow> string" where
  "normalizeTrackName U name =
     (let normalized0 = ToLower U name;
          normalized1 = foldl (\<lambda>normalized pattern. ReplaceAllString pattern normalized [])
                          normalized0 remasterPatterns;
          normalized2 = foldl (\<lambda>normalized pattern. ReplaceAllString pattern normalized [])
                          normalized1 versionPatterns;
          normalized3 = TrimSpace U normalized2;
          normalized4 = ReplaceAllString [plus Space] normalized3 '' '';
          normalized5 = TrimRight normalized4 '' -''
      in normalized5)"

definition isSameArtist :: "unicode_tables \<Rightarrow> Track \<Rightarrow> Track \<Rightarrow> bool" where
  "isSameArtist U track1 track2 =
     (if length (Artists track1) = 0 \<or> length (Artists track2) = 0 then False
      else EqualFold U (Artists track1 ! 0) (Artists track2 ! 0))"

definition isRemaster :: "unicode_tables \<Rightarrow> Track \<Rightarrow> Track \<Rightarrow> bool" where
  "isRemaster U track1 track2 =
     (let name1 = normalizeTrackName U (Name track1);
          name2 = normalizeTrackName U (Name track2)
      in if name1 \<noteq> name2 then False else isSameArtist U track1 track2)"

text \<open>
  The filter holds a \<^verbatim>\<open>QueueManager\<close>; \<^verbatim>\<open>Check\<close> calls its
  \<^verbatim>\<open>GetAllTracks\<close> once, and the record holds what that call returns.
\<close>

record DuplicateTrackFilter =
  queueManager_GetAllTracks :: "QueuedTrack list"

definition DuplicateTrackFilter_AppliesTo :: "RequesterType \<Rightarrow> bool" where
  "DuplicateTrackFilter_AppliesTo requesterType = (requesterType = RequesterTypeUser)"

fun duplicate_loop :: "unicode_tables \<Rightarrow> QueuedTrack list \<Rightarrow> Track \<Rightarrow> Result" where
  "duplicate_loop U [] requestedTrack = \<lparr> Accepted = True, Code = [] \<rparr>"
| "duplicate_loop U (queued # rest) requestedTrack =
     (if ID (qt_Track queued) = ID requestedTrack
      then \<lparr> Accepted = False, Code = ''duplicate_track'' \<rparr>
      else if isRemaster U (qt_Track queued) requestedTrack
      then \<lparr> Accepted = False, Code = ''duplicate_track'' \<rparr>
      else duplicate_loop U rest requestedTrack)"

definition DuplicateTrackFilter_Check ::
  "unicode_tables \<Rightarrow> DuplicateTrackFilter \<Rightarrow> TrackRequest \<Rightarrow> Track \<Rightarrow> Session \<Rightarrow> Result" where
  "DuplicateTrackFilter_Check U f req requestedTrack listenerSession =
     (let queuedTracks = queueManager_GetAllTracks f
      in duplicate_loop U queuedTracks requestedTrack)"

text \<open>
  The duplicate relation as the specification words it: the same track id, or the same
  normalized name together with the same primary (first) artist, compared without
  regard to case.
\<close>

definition spec_duplicate :: "unicode_tables \<Rightarrow> Track \<Rightarrow> Track \<Rightarrow> bool" where
  "spec_duplicate U queued requested \<longleftrightarrow>
     ID queued = ID requested
     \<or> (normalizeTrackName U (Name queued) = normalizeTrackName U (Name requested)
        \<and> Artists queued \<noteq> [] \<and> Artists requested \<noteq> []
        \<and> EqualFold U (hd (Artists queued)) (hd (Artists requested)))"

section \<open>Session state (internal/app/session/state)\<close>

datatype Phase = PhaseWaiting | PhaseActive | PhaseEnding | PhaseTerminated

datatype AcceptingState = NotAccepting | Accepting

record state_Manager =
  sessionID :: string
  playlistID :: string
  playlistURL :: string
  playlistName :: string
  phase :: Phase
  accepting :: AcceptingState
  sm_startTime :: "time option"
  sm_endTime :: "time option"
  endingDuration :: duration
  sm_keywords :: "string list"

definition state_New :: "string \<Rightarrow> state_Manager" where
  "state_New sid =
     \<lparr> sessionID = sid, playlistID = [], playlistURL = [], playlistName = [],
       phase = PhaseWaiting, accepting = NotAccepting,
       sm_startTime = None, sm_endTime = None, endingDuration = 0, sm_keywords = [] \<rparr>"

definition GetPhase :: "state_Manager \<Rightarrow> Phase" where
  "GetPhase s = phase s"

definition SetPhase :: "Phase \<Rightarrow> state_Manager \<Rightarrow> state_Manager" where
  "SetPhase p s = s\<lparr> phase := p \<rparr>"

definition IsAccepting :: "state_Manager \<Rightarrow> bool" where
  "IsAccepting s = (accepting s = Accepting)"

definition StartAccepting :: "state_Manager \<Rightarrow> state_Manager" where
  "StartAccepting s = s\<lparr> accepting := Accepting \<rparr>"

definition StopAccepting :: "state_Manager \<Rightarrow> state_Manager" where
  "StopAccepting s = s\<lparr> accepting := NotAccepting \<rparr>"

definition CanAcceptRequests :: "state_Manager \<Rightarrow> bool" where
  "CanAcceptRequests s = (phase s = PhaseActive \<and> accepting s = Accepting)"

definition GetPlaylistID :: "state_Manager \<Rightarrow> string" where
  "GetPlaylistID s = playlistID s"

definition SetPlaylistInfo :: "string \<Rightarrow> string \<Rightarrow> string \<Rightarrow> state_Manager \<Rightarrow> state_Manager" where
  "SetPlaylistInfo pid url name s = s\<lparr> playlistID := pid, playlistURL := url, playlistName := name \<rparr>"

definition SetKeywords :: "string list \<Rightarrow> state_Manager \<Rightarrow> state_Manager" where
  "SetKeywords ks s = s\<lparr> sm_keywords := ks \<rparr>"

definition SetTimes :: "time option \<Rightarrow> time option \<Rightarrow> state_Manager \<Rightarrow> state_Manager" where
  "SetTimes startT endT s = s\<lparr> sm_startTime := startT, sm_endTime := endT \<rparr>"

definition GetTimes :: "state_Manager \<Rightarrow> time option \<times> time option" where
  "GetTimes s = (sm_startTime s, sm_endTime s)"

definition SetEndingDuration :: "duration \<Rightarrow> state_Manager \<Rightarrow> state_Manager" where
  "SetEndingDuration d s = s\<lparr> endingDuration := d \<rparr>"

definition GetEndingDuration :: "state_Manager \<Rightarrow> duration" where
  "GetEndingDuration s = endingDuration s"

text \<open>The order of the phases: waiting, active, ending, terminated.\<close>

fun phase_rank :: "Phase \<Rightarrow> nat" where
  "phase_rank PhaseWaiting = 0"
| "phase_rank PhaseActive = 1"
| "phase_rank PhaseEnding = 2"
| "phase_rank PhaseTerminated = 3"

section \<open>Listener registry (internal/app/session/registry)\<close>

datatype registry_error = ErrInvalidListener | ErrListenerKicked

record ListenerRegistry =
  listeners :: "string \<rightharpoonup> Session"

definition NewListenerRegistry :: ListenerRegistry where
  "NewListenerRegistry = \<lparr> listeners = Map.empty \<rparr>"

definition registry_Get :: "string \<Rightarrow> ListenerRegistry \<Rightarrow> registry_error + Session" where
  "registry_Get listenerID r =
     (case listeners r listenerID of None \<Rightarrow> Inl ErrInvalidListener | Some session \<Rightarrow> Inr session)"

definition registry_Validate :: "string \<Rightarrow> ListenerRegistry \<Rightarrow> registry_error option" where
  "registry_Validate listenerID r =
     (case listeners r listenerID of
        None \<Rightarrow> Some ErrInvalidListener
      | Some session \<Rightarrow> if IsKicked session then Some ErrListenerKicked else None)"

definition registry_Kick :: "string \<Rightarrow> ListenerRegistry \<Rightarrow> registry_error option \<times> ListenerRegistry" where
  "registry_Kick listenerID r =
     (case listeners r listenerID of
        None \<Rightarrow> (Some ErrInvalidListener, r)
      | Some session \<Rightarrow> (None, r\<lparr> listeners := (listeners r)(listenerID \<mapsto> Kick session) \<rparr>))"

definition registry_IncrementPending ::
  "time \<Rightarrow> string \<Rightarrow> ListenerRegistry \<Rightarrow> registry_error option \<times> ListenerRegistry" where
  "registry_IncrementPending now listenerID r =
     (case listeners r listenerID of
        None \<Rightarrow> (Some ErrInvalidListener, r)
      | Some session \<Rightarrow>
          (None, r\<lparr> listeners := (listeners r)(listenerID \<mapsto> IncrementPendingTracks now session) \<rparr>))"

definition registry_DecrementPending :: "string \<Rightarrow> ListenerRegistry \<Rightarrow> ListenerRegistry" where
  "registry_DecrementPending listenerID r =
     (case listeners r listenerID of
        None \<Rightarrow> r
      | Some session \<Rightarrow>
          r\<lparr> listeners := (listeners r)(listenerID \<mapsto> DecrementPendingTracks session) \<rparr>)"

section \<open>Filter chain (internal/app/filter)\<close>

text \<open>
  A filter is a value of the interface \<^verbatim>\<open>Filter\<close>.  The filters of the session
  manager are closures over its state and the clock; \<open>'w\<close> is what they read.
\<close>

record 'w Filter =
  filter_Name :: string
  filter_AppliesTo :: "RequesterType \<Rightarrow> bool"
  filter_Check :: "'w \<Rightarrow> TrackRequest \<Rightarrow> Track \<Rightarrow> Session \<Rightarrow> Result"

fun Chain_Execute ::
  "'w Filter list \<Rightarrow> 'w \<Rightarrow> TrackRequest \<Rightarrow> Track \<Rightarrow> Session \<Rightarrow> RequesterType \<Rightarrow> Result" where
  "Chain_Execute [] w req t l requesterType = Accept"
| "Chain_Execute (f # fs) w req t l requesterType =
     (if \<not> filter_AppliesTo f requesterType then Chain_Execute fs w req t l requesterType
      else
        (let result = filter_Check f w req t l
         in if \<not> Accepted result then result
            else Chain_Execute fs w req t l requesterType))"

definition IsAvailableInMarket :: "Track \<Rightarrow> string \<Rightarrow> bool" where
  "IsAvailableInMarket t market =
     (case IsPlayable t of Some b \<Rightarrow> b | None \<Rightarrow> list_ex (\<lambda>m. m = market) (Markets t))"

definition MarketFilter_Check :: "string \<Rightarrow> TrackRequest \<Rightarrow> Track \<Rightarrow> Session \<Rightarrow> Result" where
  "MarketFilter_Check market req t l =
     (if market = [] then Accept
      else if \<not> IsAvailableInMarket t market then Reject ''market_restriction''
      else Accept)"

definition KickedFilter_Check :: "TrackRequest \<Rightarrow> Track \<Rightarrow> Session \<Rightarrow> Result" where
  "KickedFilter_Check req t l = (if IsKicked l then Reject ''kicked'' else Accept)"

definition UserPendingFilter_Check :: "TrackRequest \<Rightarrow> Track \<Rightarrow> Session \<Rightarrow> Result" where
  "UserPendingFilter_Check req t l =
     (if VIPStatus l then Accept
      else if 0 <s PendingTracks l then Reject ''user_pending''
      else Accept)"

section \<open>Session manager (internal/app/session)\<close>

text \<open>
  The catalog client is outside the model: what each of its calls returns is an argument
  of the operation that makes the call.  Calls that only change the remote session
  playlist, and whose error is only logged, leave the model's state as it is.
  Broadcasts go to the notification hub, which is modelled on its own above.
\<close>

datatype spotify_error = SpotifyError

datatype session_error = ErrSessionNotRunning | ErrSessionNotPaused

text \<open>A slice expression out of range panics, and so does closing a closed channel.\<close>

datatype panic = SliceBoundsOutOfRange | CloseOfClosedChannel

definition and_then :: "panic + 'a \<Rightarrow> ('a \<Rightarrow> panic + 'b) \<Rightarrow> panic + 'b" where
  "and_then r f = (case r of Inl p \<Rightarrow> Inl p | Inr x \<Rightarrow> f x)"

text \<open>Goroutines an operation starts; they run later, as steps of their own.\<close>

datatype goroutine = GoPlay | GoPlaybackLoop | GoEndTimeChecker

record session_Manager =
  config_Market :: string
  config_OpeningPlaylistURL :: string
  config_OpeningDisplayName :: string
  stateMgr :: state_Manager
  listenerReg :: ListenerRegistry
  playback :: Controller
  endingPlaylistURL :: string
  endingDisplayName :: string
  systemUser :: Session
  recentArtists :: "string list"
  maxRecentArtists :: go_int
  ctx_cancelled :: bool
  done_closed :: bool

text \<open>What the filters of the session manager read: the clock and the manager.\<close>

type_synonym world = "time \<times> session_Manager"

definition acceptanceDoneFilter :: "world Filter" where
  "acceptanceDoneFilter =
     \<lparr> filter_Name = ''acceptance_done_filter'',
       filter_AppliesTo = AcceptanceDoneFilter_AppliesTo,
       filter_Check = (\<lambda>(now, m).
         AcceptanceDoneFilter_Check
           \<lparr> isAccepting = CanAcceptRequests (stateMgr m),
             getEndTime = snd (GetTimes (stateMgr m)),
             getEndingDur = GetEndingDuration (stateMgr m),
             getQueueDuration = GetTotalDuration (playback m),
             getCurrentRemain = GetRemainingDuration now (playback m),
             getNow = now \<rparr>) \<rparr>"

definition marketFilter :: "string \<Rightarrow> world Filter" where
  "marketFilter market =
     \<lparr> filter_Name = ''market_filter'',
       filter_AppliesTo = (\<lambda>requesterType. True),
       filter_Check = (\<lambda>w. MarketFilter_Check market) \<rparr>"

definition kickedFilter :: "world Filter" where
  "kickedFilter =
     \<lparr> filter_Name = ''kicked_listener_filter'',
       filter_AppliesTo = (\<lambda>requesterType. requesterType = RequesterTypeUser),
       filter_Check = (\<lambda>w. KickedFilter_Check) \<rparr>"

definition userPendingFilter :: "world Filter" where
  "userPendingFilter =
     \<lparr> filter_Name = ''user_pending_filter'',
       filter_AppliesTo = (\<lambda>requesterType. requesterType = RequesterTypeUser),
       filter_Check = (\<lambda>w. UserPendingFilter_Check) \<rparr>"

definition duplicateTrackFilter :: "unicode_tables \<Rightarrow> world Filter" where
  "duplicateTrackFilter U =
     \<lparr> filter_Name = ''duplicate_track_filter'',
       filter_AppliesTo = DuplicateTrackFilter_AppliesTo,
       filter_Check = (\<lambda>(now, m).
         DuplicateTrackFilter_Check U
           \<lparr> queueManager_GetAllTracks = GetAllTracks (playback m) \<rparr>) \<rparr>"

text \<open>
  \<^verbatim>\<open>NewManager\<close>; the session id and the id of the system user are fresh UUIDs
  (arguments), the configuration values are the remaining arguments.
\<close>

definition session_NewManager ::
  "time \<Rightarrow> string \<Rightarrow> string \<Rightarrow> string \<Rightarrow> string \<Rightarrow> string \<Rightarrow> string \<Rightarrow> string
     \<Rightarrow> go_int \<Rightarrow> Config \<Rightarrow> session_Manager" where
  "session_NewManager now sid sysid market openingURL openingName endingURL endingName
       recentCount pbcfg =
     \<lparr> config_Market = market,
       config_OpeningPlaylistURL = openingURL,
       config_OpeningDisplayName = openingName,
       stateMgr = state_New sid,
       listenerReg = NewListenerRegistry,
       playback = NewController pbcfg,
       endingPlaylistURL = endingURL,
       endingDisplayName = endingName,
       systemUser = NewSession now sysid ''System'' [] False,
       recentArtists = [],
       maxRecentArtists = recentCount,
       ctx_cancelled = False,
       done_closed = False \<rparr>"

fun addRecentArtistsLocked :: "string list \<Rightarrow> session_Manager \<Rightarrow> panic + session_Manager" where
  "addRecentArtistsLocked [] m = Inr m"
| "addRecentArtistsLocked (artist # artists) m =
     (let m1 = m\<lparr> recentArtists := artist # recentArtists m \<rparr>
      in if sint (maxRecentArtists m1) < int (length (recentArtists m1))
         then (if sint (maxRecentArtists m1) < 0 then Inl SliceBoundsOutOfRange
               else addRecentArtistsLocked artists
                      (m1\<lparr> recentArtists :=
                            take (nat (sint (maxRecentArtists m1))) (recentArtists m1) \<rparr>))
         else addRecentArtistsLocked artists m1)"

definition addRecentArtists :: "string list \<Rightarrow> session_Manager \<Rightarrow> panic + session_Manager" where
  "addRecentArtists artists m = addRecentArtistsLocked artists m"

fun enqueuePlaylistTracks ::
  "time \<Rightarrow> Track list \<Rightarrow> string \<Rightarrow> RequesterType \<Rightarrow> session_Manager \<Rightarrow> panic + session_Manager" where
  "enqueuePlaylistTracks now [] requesterName requesterType m = Inr m"
| "enqueuePlaylistTracks now (t # tracks) requesterName requesterType m =
     (let qt = \<lparr> qt_Track = t,
                 qt_Requester = \<lparr> requester_ID = session_ID (systemUser m),
                                  requester_Name = requesterName,
                                  requester_ExternalUserID = [],
                                  requester_Type = requesterType \<rparr>,
                 AddedAt = now \<rparr>;
          m1 = m\<lparr> playback := Enqueue now qt (playback m) \<rparr>
      in and_then (addRecentArtistsLocked (Artists t) m1)
           (enqueuePlaylistTracks now tracks requesterName requesterType))"

subsection \<open>Stopping and ending\<close>

text \<open>
  \<^verbatim>\<open>transitionToEnding\<close>; \<open>endingTracks\<close> is what \<^verbatim>\<open>GetPlaylistTracks\<close> returns
  for the ending playlist.
\<close>

definition transitionToEnding ::
  "time \<Rightarrow> spotify_error + Track list \<Rightarrow> session_Manager \<Rightarrow> panic + session_Manager" where
  "transitionToEnding now endingTracks m =
     (if GetPhase (stateMgr m) \<noteq> PhaseActive then Inr m
      else
        (let m1 = m\<lparr> stateMgr := SetPhase PhaseEnding (StopAccepting (stateMgr m)) \<rparr>
         in if endingPlaylistURL m1 \<noteq> [] then
              (case endingTracks of
                 Inl err \<Rightarrow> Inr m1
               | Inr tracks \<Rightarrow>
                   if length tracks = 0 then Inr m1
                   else
                     (let (removed, pb) = ClearQueue (playback m1);
                          m2 = m1\<lparr> playback := pb \<rparr>
                      in enqueuePlaylistTracks now tracks (endingDisplayName m2)
                           RequesterTypeEnding m2))
            else Inr m1))"

text \<open>
  \<^verbatim>\<open>close(m.done)\<close>, the last step of \<^verbatim>\<open>Stop\<close> in the waiting phase, of
  \<^verbatim>\<open>StopImmediate\<close> and of \<^verbatim>\<open>terminateSession\<close>: it panics when the channel
  has been closed before.
\<close>

definition close_done :: "session_Manager \<Rightarrow> panic + session_Manager" where
  "close_done m =
     (if done_closed m then Inl CloseOfClosedChannel else Inr (m\<lparr> done_closed := True \<rparr>))"

definition session_Stop ::
  "time \<Rightarrow> spotify_error + Track list \<Rightarrow> session_Manager \<Rightarrow> panic + session_Manager" where
  "session_Stop now endingTracks m =
     (let phase = GetPhase (stateMgr m)
      in if phase = PhaseTerminated then Inr m
         else if phase = PhaseWaiting
         then close_done (m\<lparr> stateMgr := SetPhase PhaseTerminated (stateMgr m),
                              ctx_cancelled := True \<rparr>)
         else if phase = PhaseEnding then Inr m
         else transitionToEnding now endingTracks m)"

definition StopImmediate :: "time \<Rightarrow> session_Manager \<Rightarrow> panic + session_Manager" where
  "StopImmediate now m =
     (let phase = GetPhase (stateMgr m)
      in if phase = PhaseTerminated then Inr m
         else if phase = PhaseWaiting
         then close_done (m\<lparr> stateMgr := SetPhase PhaseTerminated (stateMgr m),
                              ctx_cancelled := True \<rparr>)
         else if phase = PhaseEnding then Inr m
         else
           (let s1 = StopAccepting (SetPhase PhaseTerminated (stateMgr m));
                s2 = SetTimes (fst (GetTimes s1)) (Some now) s1
            in close_done (m\<lparr> stateMgr := s2, playback := snd (Stop (playback m)),
                               ctx_cancelled := True \<rparr>)))"

definition terminateSession :: "time \<Rightarrow> session_Manager \<Rightarrow> panic + session_Manager" where
  "terminateSession now m =
     (if GetPhase (stateMgr m) = PhaseTerminated then Inr m
      else
        (let s1 = StopAccepting (SetPhase PhaseTerminated (stateMgr m));
             s2 = SetTimes (fst (GetTimes s1)) (Some now) s1
         in close_done (m\<lparr> stateMgr := s2, playback := snd (Stop (playback m)),
                            ctx_cancelled := True \<rparr>)))"

text \<open>One tick of \<^verbatim>\<open>endTimeChecker\<close>.\<close>

definition endTimeChecker_tick ::
  "time \<Rightarrow> spotify_error + Track list \<Rightarrow> session_Manager \<Rightarrow> panic + session_Manager" where
  "endTimeChecker_tick now endingTracks m =
     (case snd (GetTimes (stateMgr m)) of
        None \<Rightarrow> Inr m
      | Some endTime \<Rightarrow>
          if GetPhase (stateMgr m) \<noteq> PhaseActive then Inr m
          else
            (let deadline = Time_Add endTime (- GetEndingDuration (stateMgr m))
             in if Time_After now deadline \<or> Time_Equal now deadline
                then transitionToEnding now endingTracks m
                else Inr m))"

subsection \<open>Filling the queue with background music\<close>

record CandidateWithSource =
  cand_Track :: Track
  cand_DisplayName :: string

definition isRecentArtistLocked :: "string list \<Rightarrow> session_Manager \<Rightarrow> bool" where
  "isRecentArtistLocked artists m =
     list_ex (\<lambda>artist. list_ex (\<lambda>recent. artist = recent) (recentArtists m)) artists"

definition filterByRecentArtists ::
  "CandidateWithSource list \<Rightarrow> session_Manager \<Rightarrow> CandidateWithSource list \<times> session_Manager" where
  "filterByRecentArtists candidates m =
     (if maxRecentArtists m = 0 then (candidates, m)
      else
        (let filtered = filter (\<lambda>c. \<not> isRecentArtistLocked (Artists (cand_Track c)) m) candidates
         in if length filtered = 0 \<and> 0 < length (recentArtists m)
            then (candidates, m\<lparr> recentArtists := [] \<rparr>)
            else (filtered, m)))"

text \<open>
  The loop over the filtered candidates.  The result says whether
  \<^verbatim>\<open>fillQueueWithBGM\<close> returned from inside the loop, and which goroutines it
  started.  (The exclusion set only feeds the next call of the provider chain.)
\<close>

fun bgm_candidates ::
  "world Filter list \<Rightarrow> time \<Rightarrow> CandidateWithSource list \<Rightarrow> session_Manager
     \<Rightarrow> panic + (bool \<times> goroutine list \<times> session_Manager)" where
  "bgm_candidates chain now [] m = Inr (False, [], m)"
| "bgm_candidates chain now (c # cs) m =
     (if \<not> IsQueueEmpty (playback m) then Inr (True, [], m)
      else if IsInQueue (ID (cand_Track c)) (playback m) then bgm_candidates chain now cs m
      else
        (let req = \<lparr> ListenerID = session_ID (systemUser m), TrackID = ID (cand_Track c) \<rparr>;
             result = Chain_Execute chain (now, m) req (cand_Track c) (systemUser m)
                        RequesterTypeBGM
         in if \<not> Accepted result then bgm_candidates chain now cs m
            else
              (let qt = \<lparr> qt_Track = cand_Track c,
                          qt_Requester = \<lparr> requester_ID = session_ID (systemUser m),
                                           requester_Name = cand_DisplayName c,
                                           requester_ExternalUserID = [],
                                           requester_Type = RequesterTypeBGM \<rparr>,
                          AddedAt = now \<rparr>;
                   m1 = m\<lparr> playback := Enqueue now qt (playback m) \<rparr>
               in and_then (addRecentArtists (Artists (cand_Track c)) m1)
                    (\<lambda>m2. Inr (True,
                                (if GetState (playback m2) = StateIdle then [GoPlay] else []),
                                m2)))))"

text \<open>
  The retry loop; \<open>responses\<close> are the answers of the provider chain to the successive
  calls of \<^verbatim>\<open>GetCandidates\<close>, at most \<^verbatim>\<open>maxRetries\<close> = 3 of them are asked for.
\<close>

fun bgm_retries ::
  "nat \<Rightarrow> world Filter list \<Rightarrow> time \<Rightarrow> (spotify_error + CandidateWithSource list) list
     \<Rightarrow> session_Manager \<Rightarrow> panic + (goroutine list \<times> session_Manager)" where
  "bgm_retries 0 chain now responses m = Inr ([], m)"
| "bgm_retries (Suc n) chain now [] m = Inr ([], m)"
| "bgm_retries (Suc n) chain now (response # responses) m =
     (case response of
        Inl err \<Rightarrow> Inr ([], m)
      | Inr candidates \<Rightarrow>
          if length candidates = 0 then Inr ([], m)
          else if GetPhase (stateMgr m) \<noteq> PhaseActive \<or> \<not> IsAccepting (stateMgr m)
          then Inr ([], m)
          else
            (let (filtered, m1) = filterByRecentArtists candidates m
             in and_then (bgm_candidates chain now filtered m1)
                  (\<lambda>(returned, started, m2).
                     if returned then Inr (started, m2)
                     else bgm_retries n chain now responses m2)))"

definition fillQueueWithBGM ::
  "world Filter list \<Rightarrow> time \<Rightarrow> (spotify_error + CandidateWithSource list) list
     \<Rightarrow> session_Manager \<Rightarrow> panic + (goroutine list \<times> session_Manager)" where
  "fillQueueWithBGM chain now responses m = bgm_retries 3 chain now responses m"

definition onQueueDepleting ::
  "world Filter list \<Rightarrow> time \<Rightarrow> (spotify_error + CandidateWithSource list) list
     \<Rightarrow> session_Manager \<Rightarrow> panic + (goroutine list \<times> session_Manager)" where
  "onQueueDepleting chain now responses m =
     (if GetPhase (stateMgr m) \<noteq> PhaseActive \<or> \<not> IsAccepting (stateMgr m) then Inr ([], m)
      else fillQueueWithBGM chain now responses m)"

definition onQueueEmpty ::
  "world Filter list \<Rightarrow> time \<Rightarrow> (spotify_error + CandidateWithSource list) list
     \<Rightarrow> session_Manager \<Rightarrow> panic + (goroutine list \<times> session_Manager)" where
  "onQueueEmpty chain now responses m =
     (let phase = GetPhase (stateMgr m)
      in if phase = PhaseEnding
         then and_then (terminateSession now m) (\<lambda>m'. Inr ([], m'))
         else if phase = PhaseActive \<and> IsAccepting (stateMgr m)
         then fillQueueWithBGM chain now responses m
         else Inr ([], m))"

subsection \<open>Starting\<close>

text \<open>
  \<^verbatim>\<open>Start\<close> takes and releases the manager's lock three times; each of the three
  parts below runs with the lock held.  Between the first and the second part the lock
  is free while \<^verbatim>\<open>Start\<close> waits for the scheduled start time, between the second and
  the third while the queue is filled with background music (when no opening playlist is
  configured).  \<open>startT\<close> and \<open>endT\<close> are the times parsed from the
  configuration, which \<^verbatim>\<open>Start\<close> keeps in its local variables \<^verbatim>\<open>startTime\<close>
  and \<^verbatim>\<open>endTime\<close>.
\<close>

definition Start_begin ::
  "time \<Rightarrow> time option \<Rightarrow> time option \<Rightarrow> string list \<Rightarrow> session_Manager \<Rightarrow> bool \<times> session_Manager" where
  "Start_begin now startT endT kws m =
     (let m1 = m\<lparr> stateMgr := SetKeywords kws (SetTimes startT endT (stateMgr m)) \<rparr>
      in (case startT of
            Some st \<Rightarrow> (Time_Before now st, m1)
          | None \<Rightarrow> (False, m1)))"

text \<open>
  The second part: the session playlist is created (\<open>created\<close> is the answer of
  \<^verbatim>\<open>CreatePlaylist\<close> and \<open>url\<close> that of \<^verbatim>\<open>GetPlaylistURL\<close>), the opening
  playlist is loaded and enqueued, and the ending duration is computed.
\<close>

definition Start_prepare ::
  "time \<Rightarrow> string \<Rightarrow> spotify_error + string \<Rightarrow> string \<Rightarrow> spotify_error + Track list
     \<Rightarrow> spotify_error option \<Rightarrow> spotify_error + Track list \<Rightarrow> session_Manager
     \<Rightarrow> panic + (spotify_error option \<times> session_Manager)" where
  "Start_prepare now plName created url openingTracks addOpening endingTracks m =
     (case created of
        Inl err \<Rightarrow> Inr (Some err, m)
      | Inr pid \<Rightarrow>
          (let m1 = m\<lparr> stateMgr := SetPlaylistInfo pid url plName (stateMgr m) \<rparr>;
               ending = (\<lambda>m2.
                 if endingPlaylistURL m2 \<noteq> [] then
                   (case endingTracks of
                      Inl err \<Rightarrow> (Some err, m2)
                    | Inr tracks \<Rightarrow>
                        (None,
                         m2\<lparr> stateMgr :=
                               SetEndingDuration
                                 (foldl (\<lambda>d t. d + Duration t) 0 tracks) (stateMgr m2) \<rparr>))
                 else (None, m2))
           in if config_OpeningPlaylistURL m1 \<noteq> [] then
                (case openingTracks of
                   Inl err \<Rightarrow> Inr (Some err, m1)
                 | Inr tracks \<Rightarrow>
                     and_then
                       (enqueuePlaylistTracks now tracks (config_OpeningDisplayName m1)
                          RequesterTypeOpening m1)
                       (\<lambda>m2. case addOpening of
                                Some err \<Rightarrow> Inr (Some err, m2)
                              | None \<Rightarrow> Inr (ending m2)))
              else Inr (ending m1)))"

text \<open>
  The third part makes the session active.  It is followed by the broadcast of the new
  state and the start of the playback loop, of the end time checker (when an end time is
  set) and of the first \<^verbatim>\<open>Play\<close>.
\<close>

definition Start_activate ::
  "time \<Rightarrow> time option \<Rightarrow> time option \<Rightarrow> session_Manager \<Rightarrow> goroutine list \<times> session_Manager" where
  "Start_activate now startT endT m =
     (let s1 = StartAccepting (SetPhase PhaseActive (stateMgr m));
          s2 = (if startT = None then SetTimes (Some now) endT s1 else s1)
      in ([GoPlaybackLoop] @ (if endT \<noteq> None then [GoEndTimeChecker] else []) @ [GoPlay],
          m\<lparr> stateMgr := s2 \<rparr>))"

subsection \<open>Requests\<close>

text \<open>
  \<^verbatim>\<open>RequestTrack\<close>; \<open>fetched\<close> is what \<^verbatim>\<open>GetTrack\<close> returns for the track id.
  The result is the triple the Go function returns, the goroutines it started and the
  manager afterwards.
\<close>

definition RequestTrack ::
  "world Filter list \<Rightarrow> time \<Rightarrow> spotify_error + Track \<Rightarrow> string \<Rightarrow> string \<Rightarrow> session_Manager
     \<Rightarrow> panic + ((bool \<times> string \<times> spotify_error option) \<times> goroutine list \<times> session_Manager)" where
  "RequestTrack chain now fetched listenerID trackID m =
     (case registry_Get listenerID (listenerReg m) of
        Inl err \<Rightarrow> Inr ((False, ''invalid_listener'', None), [], m)
      | Inr session \<Rightarrow>
          (case fetched of
             Inl err \<Rightarrow> Inr ((False, ''track_not_found'', None), [], m)
           | Inr t \<Rightarrow>
               (let req = \<lparr> ListenerID = listenerID, TrackID = trackID \<rparr>;
                    result = Chain_Execute chain (now, m) req t session RequesterTypeUser
                in if \<not> Accepted result then Inr ((False, Code result, None), [], m)
                   else
                     (let qt = \<lparr> qt_Track = t,
                                 qt_Requester = \<lparr> requester_ID = session_ID session,
                                                  requester_Name = DisplayName session,
                                                  requester_ExternalUserID = ExternalUserID session,
                                                  requester_Type = RequesterTypeUser \<rparr>,
                                 AddedAt = now \<rparr>;
                          m1 = m\<lparr> playback := Enqueue now qt (playback m) \<rparr>
                      in and_then (addRecentArtists (Artists t) m1)
                           (\<lambda>m2.
                              let m3 = m2\<lparr> listenerReg :=
                                             snd (registry_IncrementPending now listenerID
                                                    (listenerReg m2)) \<rparr>
                              in Inr ((True, [], None),
                                      (if GetState (playback m3) = StateIdle then [GoPlay] else []),
                                      m3))))))"

subsection \<open>Playback control and playback events\<close>

definition session_Pause :: "time \<Rightarrow> session_Manager \<Rightarrow> (session_error + playback_error) option \<times> session_Manager" where
  "session_Pause now m =
     (if GetPhase (stateMgr m) \<noteq> PhaseActive then (Some (Inl ErrSessionNotRunning), m)
      else (case Pause now (playback m) of
              (err, pb) \<Rightarrow> (map_option Inr err, m\<lparr> playback := pb \<rparr>)))"

definition session_Resume :: "time \<Rightarrow> session_Manager \<Rightarrow> (session_error + playback_error) option \<times> session_Manager" where
  "session_Resume now m =
     (if GetState (playback m) \<noteq> StatePaused then (Some (Inl ErrSessionNotPaused), m)
      else (case Resume now (playback m) of
              (err, pb) \<Rightarrow> (map_option Inr err, m\<lparr> playback := pb \<rparr>)))"

definition session_Skip :: "time \<Rightarrow> session_Manager \<Rightarrow> playback_error option \<times> session_Manager" where
  "session_Skip now m =
     (case Skip now (playback m) of (err, pb) \<Rightarrow> (err, m\<lparr> playback := pb \<rparr>))"

definition onTrackStarted :: "QueuedTrack option \<Rightarrow> session_Manager \<Rightarrow> session_Manager" where
  "onTrackStarted qt m =
     (case qt of
        None \<Rightarrow> m
      | Some q \<Rightarrow>
          m\<lparr> listenerReg :=
               registry_DecrementPending (requester_ID (qt_Requester q)) (listenerReg m) \<rparr>)"

subsection \<open>Runs of the session manager\<close>

text \<open>
  The operations that move the session through its phases, as steps on the manager:
  the three locked parts of \<^verbatim>\<open>Start\<close> and the filling of the queue between the
  second and the third, \<^verbatim>\<open>Stop\<close>, \<^verbatim>\<open>StopImmediate\<close>, a tick of the end time
  checker (which makes the ending transition at the deadline) and the handling of
  \<^verbatim>\<open>EventQueueEmpty\<close> (which terminates the session in the ending phase).  A step
  that panics leaves no next state.
\<close>

datatype session_op =
  OpStartBegin time "time option" "time option" "string list"
| OpStartPrepare time string "spotify_error + string" string "spotify_error + Track list"
    "spotify_error option" "spotify_error + Track list"
| OpStartFill time "(spotify_error + CandidateWithSource list) list"
| OpStartActivate time "time option" "time option"
| OpSessionStop time "spotify_error + Track list"
| OpStopImmediate time
| OpEndTimeCheckerTick time "spotify_error + Track list"
| OpQueueEmpty time "(spotify_error + CandidateWithSource list) list"

fun session_step :: "world Filter list \<Rightarrow> session_Manager \<Rightarrow> session_op \<Rightarrow> panic + session_Manager" where
  "session_step chain m (OpStartBegin now startT endT kws) =
     Inr (snd (Start_begin now startT endT kws m))"
| "session_step chain m (OpStartPrepare now plName created url openingTracks addOpening endingTracks) =
     and_then (Start_prepare now plName created url openingTracks addOpening endingTracks m)
       (\<lambda>(err, m'). Inr m')"
| "session_step chain m (OpStartFill now responses) =
     (if config_OpeningPlaylistURL m = []
      then and_then (fillQueueWithBGM chain now responses m) (\<lambda>(started, m'). Inr m')
      else Inr m)"
| "session_step chain m (OpStartActivate now startT endT) =
     Inr (snd (Start_activate now startT endT m))"
| "session_step chain m (OpSessionStop now endingTracks) = session_Stop now endingTracks m"
| "session_step chain m (OpStopImmediate now) = StopImmediate now m"
| "session_step chain m (OpEndTimeCheckerTick now endingTracks) =
     endTimeChecker_tick now endingTracks m"
| "session_step chain m (OpQueueEmpty now responses) =
     and_then (onQueueEmpty chain now responses m) (\<lambda>(started, m'). Inr m')"

fun run_session :: "world Filter list \<Rightarrow> session_Manager \<Rightarrow> session_op list \<Rightarrow> panic + session_Manager" where
  "run_session chain m [] = Inr m"
| "run_session chain m (op # ops) =
     and_then (session_step chain m op) (\<lambda>m'. run_session chain m' ops)"

text \<open>
  The invariant of the session state, and the relation between an earlier and a later
  state of a session whose phase has not gone back.
\<close>

definition accepting_only_active :: "state_Manager \<Rightarrow> bool" where
  "accepting_only_active s \<longleftrightarrow> (accepting s = NotAccepting \<or> phase s = PhaseActive)"

definition phase_not_regressed :: "state_Manager \<Rightarrow> state_Manager \<Rightarrow> bool" where
  "phase_not_regressed s s' \<longleftrightarrow>
     phase_rank (phase s) \<le> phase_rank (phase s')
     \<and> (phase s \<noteq> PhaseTerminated \<or> phase s' = PhaseTerminated)"

text \<open>
  A run in which the third part of \<^verbatim>\<open>Start\<close> only ever runs while the session is
  still waiting.
\<close>

fun activates_while_waiting :: "world Filter list \<Rightarrow> session_Manager \<Rightarrow> session_op list \<Rightarrow> bool" where
  "activates_while_waiting chain m [] = True"
| "activates_while_waiting chain m (op # ops) =
     ((case op of
         OpStartActivate now startT endT \<Rightarrow> phase (stateMgr m) = PhaseWaiting
       | _ \<Rightarrow> True)
      \<and> (case session_step chain m op of
            Inl p \<Rightarrow> True
          | Inr m' \<Rightarrow> activates_while_waiting chain m' ops))"

section \<open>Concrete inputs\<close>

text \<open>Values on which the verified properties below are exercised.\<close>

definition ex_request :: TrackRequest where
  "ex_request = \<lparr> ListenerID = ''l1'', TrackID = ''B'' \<rparr>"

definition ex_listener :: Session where
  "ex_listener = NewSession 0 ''l1'' ''Ann'' [] False"

definition mk_track :: "string \<Rightarrow> string \<Rightarrow> string list \<Rightarrow> duration \<Rightarrow> Track" where
  "mk_track i n as d =
     \<lparr> ID = i, Name = n, Artists = as, Album = [], AlbumArtURL = [], Duration = d,
       URL = [], Genres = [], Popularity = 0, Explicit = False, Markets = [],
       IsPlayable = None \<rparr>"

text \<open>
  The acceptance gate one hour before the scheduled end with an ending playlist of five
  minutes, forty minutes queued and fifteen minutes left of the current track: the
  projected start is exactly the deadline.
\<close>

definition ex_gate :: AcceptanceDoneFilter where
  "ex_gate = \<lparr> isAccepting = True, getEndTime = Some 3600000000000,
      getEndingDur = 300000000000, getQueueDuration = 2400000000000,
      getCurrentRemain = 900000000000, getNow = 0 \<rparr>"

text \<open>Two broadcasts and two subscribe-time allocations, interleaved.\<close>

definition ex_seq_ops :: "unit seq_op list" where
  "ex_seq_ops =
     [OpBroadcast \<lparr> SequenceNo = 0, Type = NOTIFICATION_TYPE_CHANGE_STATE, Info = () \<rparr>,
      OpNextSequenceNo,
      OpBroadcast \<lparr> SequenceNo = 0, Type = NOTIFICATION_TYPE_CHANGE_TRACK, Info = () \<rparr>,
      OpNextSequenceNo]"

text \<open>
  A controller with a depletion threshold of thirty seconds, and two queued tracks of
  twenty seconds and of four minutes.
\<close>


definition ex_config :: Config where
  "ex_config = \<lparr> DepletionThresholdSec = 30, NotificationDelay = 5000000000,
                  GapCorrection = 100000000 \<rparr>"

definition mk_queued :: "Track \<Rightarrow> string \<Rightarrow> RequesterType \<Rightarrow> QueuedTrack" where
  "mk_queued t rid ty =
     \<lparr> qt_Track = t,
       qt_Requester = \<lparr> requester_ID = rid, requester_Name = rid,
                        requester_ExternalUserID = [], requester_Type = ty \<rparr>,
       AddedAt = 0 \<rparr>"

definition ex_qtA :: QueuedTrack where
  "ex_qtA = mk_queued (mk_track ''A'' ''Yesterday'' [''The Beatles''] 20000000000) ''l1'' RequesterTypeUser"

definition ex_qtB :: QueuedTrack where
  "ex_qtB = mk_queued (mk_track ''B'' ''Le Freak'' [''CHIC''] 240000000000) ''l2'' RequesterTypeUser"


text \<open>
  An excerpt of the Unicode tables: the capital and the small letter E with acute accent
  (U+00C9, U+00E9) and the ideographic space (U+3000).
\<close>

definition ex_unicode :: unicode_tables where
  "ex_unicode =
     \<lparr> CaseRanges_ToLower = (\<lambda>r. if r = 201 then 233 else r),
       SimpleFold_orbit = (\<lambda>r. if r = 201 \<or> r = 233 then [201, 233] else [r]),
       White_Space = (\<lambda>r. r = 12288) \<rparr>"


definition ex_trackC :: Track where
  "ex_trackC = mk_track ''C'' ''Yesterday'' [''Paul McCartney''] 150000000000"


text \<open>The controller playing the first of the two tracks, the second one queued.\<close>

definition ex_playing :: Controller where
  "ex_playing = snd (Play 0 (Enqueue 0 ex_qtB (Enqueue 0 ex_qtA (NewController ex_config))))"

text \<open>
  The controller after an opening playlist that holds the first track twice has been
  enqueued and playback has started.
\<close>

definition ex_qtA_opening :: QueuedTrack where
  "ex_qtA_opening = mk_queued (qt_Track ex_qtA) ''sys'' RequesterTypeOpening"

definition ex_playing_repeated :: Controller where
  "ex_playing_repeated =
     snd (Play 0 (Enqueue 0 ex_qtA_opening (Enqueue 0 ex_qtA_opening (NewController ex_config))))"



text \<open>
  An active session whose controller plays the first track with the second one queued,
  with one listener, an ending playlist configured, and a chain of four filters; and the
  same session when the listener has a request pending.
\<close>

definition ex_session :: session_Manager where
  "ex_session =
     (snd (Start_activate 0 None None
        (session_NewManager 0 ''s1'' ''sys'' ''JP'' [] ''Opening'' ''spotify:playlist:ending''
           ''Ending'' 3 ex_config)))
     \<lparr> playback := ex_playing,
       listenerReg := \<lparr> listeners = [''l1'' \<mapsto> ex_listener] \<rparr> \<rparr>"

definition ex_chain :: "world Filter list" where
  "ex_chain = [acceptanceDoneFilter, marketFilter [], kickedFilter, userPendingFilter]"

definition ex_session_pending :: session_Manager where
  "ex_session_pending =
     ex_session\<lparr> listenerReg :=
       \<lparr> listeners = [''l1'' \<mapsto> IncrementPendingTracks 0 ex_listener] \<rparr> \<rparr>"

text \<open>
  A session configured with a start time one minute ahead.  \<^verbatim>\<open>Start\<close> sets the
  times and waits with the lock released; one second before the start time the
  administrator stops the session; at the start time \<^verbatim>\<open>Start\<close> goes on.
\<close>

definition ex_waiting :: session_Manager where
  "ex_waiting =
     session_NewManager 0 ''s1'' ''sys'' ''JP'' ''spotify:playlist:opening'' ''Opening''
       ''spotify:playlist:ending'' ''Ending'' 3 ex_config"

definition ex_stop_during_start :: "session_op list" where
  "ex_stop_during_start =
     [OpStartBegin 0 (Some 60000000000) (Some 3600000000000) [],
      OpSessionStop 59000000000 (Inr [ex_trackC])]"

definition ex_start_resumes :: "session_op list" where
  "ex_start_resumes =
     [OpStartPrepare 60000000000 ''Session'' (Inr ''pl1'') ''https://open.spotify.com/playlist/pl1''
        (Inr [qt_Track ex_qtA]) None (Inr [ex_trackC]),
      OpStartFill 60000000000 [],
      OpStartActivate 60000000000 (Some 60000000000) (Some 3600000000000)]"

text \<open>
  A broadcast that has taken its number when a subscription begins and copies the
  subscriptions after the subscriber has registered: with the buffering handler, and
  with the earlier one.  The same two operations with the broadcast completed first.
\<close>

definition ex_change_state :: "unit Notification" where
  "ex_change_state = \<lparr> SequenceNo = 0, Type = NOTIFICATION_TYPE_CHANGE_STATE, Info = () \<rparr>"

definition ex_subscribe_during_broadcast :: "unit notification_Manager" where
  "ex_subscribe_during_broadcast =
     (case Broadcast_allocate ex_change_state notification_NewManager of (stamped, m1) \<Rightarrow>
      case SubscribeNotifications_subscribe ''sub-1'' m1 of ((subscriptionID, n), m2) \<Rightarrow>
        SubscribeNotifications_flush subscriptionID
          (SubscribeNotifications_send subscriptionID n ()
             (Broadcast_fanout stamped m2)))"

definition ex_earlier_subscribe_during_broadcast :: "unit notification_Manager" where
  "ex_earlier_subscribe_during_broadcast =
     (case Broadcast_allocate ex_change_state notification_NewManager of (stamped, m1) \<Rightarrow>
      case NextSequenceNo m1 of (n, m2) \<Rightarrow>
      case SubscribeNotifications_earlier_send ''sub-1'' n () m2 of (subscriptionID, m3) \<Rightarrow>
        Broadcast_fanout stamped m3)"

definition ex_subscribe_after_broadcast :: "unit notification_Manager" where
  "ex_subscribe_after_broadcast =
     (case Broadcast ex_change_state notification_NewManager of (stamped, m1) \<Rightarrow>
      case SubscribeNotifications_subscribe ''sub-1'' m1 of ((subscriptionID, n), m2) \<Rightarrow>
        SubscribeNotifications_flush subscriptionID
          (SubscribeNotifications_send subscriptionID n () m2))"

section \<open>Properties of the listener session\<close>

lemma sint_succ_64:
  "0 \<le> sint (x::64 word) \<Longrightarrow> sint x < 2 ^ 63 - 1 \<Longrightarrow> sint (x + 1) = sint x + 1"
  by (simp add: sint_word_ariths signed_take_bit_int_eq_self)

lemma sint_pred_64:
  "0 < sint (x::64 word) \<Longrightarrow> sint (x - 1) = sint x - 1"
proof -
  assume pos: "0 < sint x"
  have "sint x < 2 ^ 63" using sint_lt [of x] by simp
  with pos show ?thesis
    by (simp add: sint_word_ariths signed_take_bit_int_eq_self)
qed

lemma DecrementPendingTracks_sint:
  "0 \<le> sint (PendingTracks s) \<Longrightarrow>
   sint (PendingTracks (DecrementPendingTracks s)) = max 0 (sint (PendingTracks s) - 1)"
  by (auto simp: DecrementPendingTracks_def word_sless_alt sint_pred_64)

lemma IncrementPendingTracks_sint:
  "0 \<le> sint (PendingTracks s) \<Longrightarrow> sint (PendingTracks s) < 2 ^ 63 - 1 \<Longrightarrow>
   sint (PendingTracks (IncrementPendingTracks now s)) = sint (PendingTracks s) + 1"
  by (simp add: IncrementPendingTracks_def sint_succ_64)

lemma run_pending_ops_bounds:
  "0 \<le> sint (PendingTracks s) \<Longrightarrow>
   sint (PendingTracks s) + int (length ops) < 2 ^ 63 \<Longrightarrow>
   0 \<le> sint (PendingTracks (foldl apply_pending_op s ops))
   \<and> sint (PendingTracks (foldl apply_pending_op s ops))
       \<le> sint (PendingTracks s) + int (length ops)"
proof (induction ops arbitrary: s)
  case Nil
  then show ?case by simp
next
  case (Cons op ops)
  show ?case
  proof (cases op)
    case (IncrementPending now)
    have step: "sint (PendingTracks (IncrementPendingTracks now s)) = sint (PendingTracks s) + 1"
      using Cons.prems by (intro IncrementPendingTracks_sint) auto
    have "0 \<le> sint (PendingTracks (foldl apply_pending_op (IncrementPendingTracks now s) ops))
      \<and> sint (PendingTracks (foldl apply_pending_op (IncrementPendingTracks now s) ops))
          \<le> sint (PendingTracks (IncrementPendingTracks now s)) + int (length ops)"
      using Cons.prems step by (intro Cons.IH) auto
    then show ?thesis using IncrementPending step by simp
  next
    case DecrementPending
    have step: "sint (PendingTracks (DecrementPendingTracks s)) = max 0 (sint (PendingTracks s) - 1)"
      using Cons.prems by (intro DecrementPendingTracks_sint) auto
    have "0 \<le> sint (PendingTracks (foldl apply_pending_op (DecrementPendingTracks s) ops))
      \<and> sint (PendingTracks (foldl apply_pending_op (DecrementPendingTracks s) ops))
          \<le> sint (PendingTracks (DecrementPendingTracks s)) + int (length ops)"
      using Cons.prems step by (intro Cons.IH) auto
    then show ?thesis using DecrementPending step Cons.prems by auto
  qed
qed


text \<open>
  Claim C8.  The pending counter of a listener session never goes negative: from a
  non-negative value (a new session starts at 0) every run of increments and decrements
  that stays within the range of Go's \<^verbatim>\<open>int\<close> leaves it non-negative;
  \<^verbatim>\<open>DecrementPendingTracks\<close> at 0 changes nothing; and
  \<^verbatim>\<open>IncrementPendingTracks\<close> followed by \<^verbatim>\<open>DecrementPendingTracks\<close> gives back
  the original count.
\<close>

theorem pending_count_saturating:
  "(0 \<le> sint (PendingTracks s) \<and> sint (PendingTracks s) + int (length ops) < 2 ^ 63
      \<longrightarrow> 0 \<le> sint (PendingTracks (run_pending_ops s ops)))
   \<and> PendingTracks (NewSession now0 i d e v) = 0
   \<and> (PendingTracks s = 0 \<longrightarrow> DecrementPendingTracks s = s)
   \<and> (0 \<le> sint (PendingTracks s) \<and> sint (PendingTracks s) < 2 ^ 63 - 1
      \<longrightarrow> PendingTracks (DecrementPendingTracks (IncrementPendingTracks t s)) = PendingTracks s)"
proof (intro conjI impI)
  assume "0 \<le> sint (PendingTracks s) \<and> sint (PendingTracks s) + int (length ops) < 2 ^ 63"
  then show "0 \<le> sint (PendingTracks (run_pending_ops s ops))"
    using run_pending_ops_bounds [of s ops] by (simp add: run_pending_ops_def)
next
  show "PendingTracks (NewSession now0 i d e v) = 0" by (simp add: NewSession_def)
next
  assume "PendingTracks s = 0"
  then show "DecrementPendingTracks s = s" by (simp add: DecrementPendingTracks_def)
next
  assume a: "0 \<le> sint (PendingTracks s) \<and> sint (PendingTracks s) < 2 ^ 63 - 1"
  then have "sint (PendingTracks (IncrementPendingTracks t s)) = sint (PendingTracks s) + 1"
    by (intro IncrementPendingTracks_sint) auto
  with a have "0 <s PendingTracks (IncrementPendingTracks t s)"
    by (simp add: word_sless_alt)
  then show "PendingTracks (DecrementPendingTracks (IncrementPendingTracks t s)) = PendingTracks s"
    by (simp add: DecrementPendingTracks_def) (simp add: IncrementPendingTracks_def)
qed

theorem pending_count_saturating_witness:
  "0 \<le> sint (PendingTracks (run_pending_ops ex_listener
         [IncrementPending 5, DecrementPending, DecrementPending, IncrementPending 9]))
   \<and> DecrementPendingTracks ex_listener = ex_listener
   \<and> PendingTracks (DecrementPendingTracks (IncrementPendingTracks 7 ex_listener))
       = PendingTracks ex_listener"
  using pending_count_saturating [of ex_listener
      "[IncrementPending 5, DecrementPending, DecrementPending, IncrementPending 9]"
      0 "''l1''" "''Ann''" "[]" False 7]
  by (simp add: ex_listener_def NewSession_def)

section \<open>Properties of the acceptance gate\<close>

lemma sint_neg_64: "(x::64 word) \<noteq> - (2 ^ 63) \<Longrightarrow> sint (- x) = - sint x"
proof -
  assume ne: "x \<noteq> - (2 ^ 63)"
  have "sint x \<noteq> - (2 ^ 63)"
  proof
    assume "sint x = - (2 ^ 63)"
    then have "word_of_int (sint x) = (word_of_int (- (2 ^ 63)) :: 64 word)" by simp
    then show False using ne by simp
  qed
  moreover have "- (2 ^ 63) \<le> sint x" "sint x < 2 ^ 63"
    using sint_ge [of x] sint_lt [of x] by simp_all
  ultimately show ?thesis
    by (simp add: sint_word_ariths signed_take_bit_int_eq_self)
qed

text \<open>
  Claim C1.  The acceptance gate applies to USER requests, and its check is the
  specified decision: \<open>acceptance_done\<close> when the session is not accepting; otherwise,
  when an end time is set, \<open>time_limit_exceeded\<close> exactly when now is after the
  deadline (scheduled end minus ending duration) or the projected start (now plus the
  remaining time of the current track plus the queued duration) is at or after the
  deadline; accepted in all other cases.  A projected start equal to the deadline is
  rejected.  The ending duration is any value whose negation Go can represent.
\<close>

theorem AcceptanceDoneFilter_Check_spec:
  assumes "getEndingDur f \<noteq> - (2 ^ 63)"
  shows "AcceptanceDoneFilter_AppliesTo RequesterTypeUser
     \<and> AcceptanceDoneFilter_Check f req t l =
         spec_AcceptanceGate (isAccepting f) (getEndTime f) (sint (getEndingDur f))
           (sint (getQueueDuration f)) (sint (getCurrentRemain f)) (getNow f)
     \<and> (isAccepting f \<and> getEndTime f = Some e
          \<and> getNow f + sint (getCurrentRemain f) + sint (getQueueDuration f)
              = e - sint (getEndingDur f)
        \<longrightarrow> AcceptanceDoneFilter_Check f req t l = Reject ''time_limit_exceeded'')"
proof -
  have neg: "sint (- getEndingDur f) = - sint (getEndingDur f)"
    using assms by (rule sint_neg_64)
  show ?thesis
    by (auto simp: AcceptanceDoneFilter_AppliesTo_def AcceptanceDoneFilter_Check_def
        spec_AcceptanceGate_def Time_Add_def Time_After_def Time_Equal_def Let_def neg
        split: option.splits)
qed

theorem AcceptanceDoneFilter_Check_spec_witness:
  "getEndingDur ex_gate \<noteq> - (2 ^ 63)
   \<and> isAccepting ex_gate \<and> getEndTime ex_gate = Some 3600000000000
   \<and> getNow ex_gate + sint (getCurrentRemain ex_gate) + sint (getQueueDuration ex_gate)
       = 3600000000000 - sint (getEndingDur ex_gate)
   \<and> AcceptanceDoneFilter_Check ex_gate ex_request (mk_track ''B'' ''Yesterday'' [''The Beatles''] 600000000000) ex_listener
       = Reject ''time_limit_exceeded''"
proof -
  have h: "getEndingDur ex_gate \<noteq> - (2 ^ 63)" by (simp add: ex_gate_def)
  show ?thesis
    using h AcceptanceDoneFilter_Check_spec [OF h, of ex_request
        "mk_track ''B'' ''Yesterday'' [''The Beatles''] 600000000000" ex_listener 3600000000000]
    by (simp add: ex_gate_def spec_AcceptanceGate_def)
qed

section \<open>Properties of the notification hub\<close>

lemma unat_succ_64: "unat (x::64 word) < 2 ^ 64 - 1 \<Longrightarrow> unat (x + 1) = unat x + 1"
  by (simp add: unat_word_ariths)

lemma sequenceNo_NextSequenceNo:
  "NextSequenceNo m = (n, m') \<Longrightarrow> n = sequenceNo m + 1 \<and> sequenceNo m' = sequenceNo m + 1"
  by (auto simp: NextSequenceNo_def)

lemma sequenceNo_Broadcast:
  "Broadcast x m = (stamped, m') \<Longrightarrow>
   SequenceNo stamped = sequenceNo m + 1 \<and> sequenceNo m' = sequenceNo m + 1"
  by (auto simp: Broadcast_def Let_def)

lemma allocated_bounds:
  "unat (sequenceNo m) + length ops < 2 ^ 64 \<Longrightarrow>
   sorted_wrt (<) (allocated m ops)
   \<and> (\<forall>n \<in> set (allocated m ops). sequenceNo m < n
          \<and> unat n \<le> unat (sequenceNo m) + length ops)"
proof (induction ops arbitrary: m)
  case Nil
  then show ?case by simp
next
  case (Cons op ops)
  have step: "unat (sequenceNo m + 1) = unat (sequenceNo m) + 1"
    using Cons.prems by (intro unat_succ_64) simp
  obtain n m' where nm: "allocated m (op # ops) = n # allocated m' ops"
      "n = sequenceNo m + 1" "sequenceNo m' = sequenceNo m + 1"
  proof (cases op)
    case OpNextSequenceNo
    then show ?thesis
      using that [of "fst (NextSequenceNo m)" "snd (NextSequenceNo m)"]
        sequenceNo_NextSequenceNo [of m "fst (NextSequenceNo m)" "snd (NextSequenceNo m)"]
      by (simp add: case_prod_beta)
  next
    case (OpBroadcast x)
    then show ?thesis
      using that [of "SequenceNo (fst (Broadcast x m))" "snd (Broadcast x m)"]
        sequenceNo_Broadcast [of x m "fst (Broadcast x m)" "snd (Broadcast x m)"]
      by (simp add: case_prod_beta)
  qed
  have "unat (sequenceNo m') + length ops < 2 ^ 64"
    using Cons.prems nm(3) step by simp
  then have IH: "sorted_wrt (<) (allocated m' ops)"
    "\<forall>k \<in> set (allocated m' ops). sequenceNo m' < k \<and> unat k \<le> unat (sequenceNo m') + length ops"
    using Cons.IH [of m'] by auto
  have lt: "sequenceNo m < n"
    using nm(2) step by (simp add: word_less_nat_alt)
  have gt: "\<forall>k \<in> set (allocated m' ops). n < k"
    using IH(2) nm by simp
  have "\<forall>k \<in> set (allocated m' ops). sequenceNo m < k
          \<and> unat k \<le> unat (sequenceNo m) + length (op # ops)"
    using IH(2) lt nm step by (auto simp: word_less_nat_alt)
  moreover have "unat n \<le> unat (sequenceNo m) + length (op # ops)"
    using nm(2) step by simp
  ultimately show ?case
    using IH(1) lt gt nm(1) by simp
qed

text \<open>
  Claim C3.  \<^verbatim>\<open>NextSequenceNo\<close> and \<^verbatim>\<open>Broadcast\<close> draw from the one
  counter, each allocation being one step under \<^verbatim>\<open>sequenceNoMu\<close>.  In every run
  of such allocations (as long as the \<^verbatim>\<open>uint64\<close> counter has not run through its
  whole range) each operation is assigned one number, the numbers are strictly
  increasing in allocation order, no two are equal, and all are above the counter's
  value before the run.
\<close>

theorem sequence_numbers_strictly_increasing:
  assumes "unat (sequenceNo m) + length ops < 2 ^ 64"
  shows "length (allocated m ops) = length ops
     \<and> sorted_wrt (<) (allocated m ops)
     \<and> distinct (allocated m ops)
     \<and> (\<forall>n \<in> set (allocated m ops). sequenceNo m < n)"
proof -
  have len: "length (allocated m ops) = length ops" for m :: "'a notification_Manager" and ops
    by (induction m ops rule: allocated.induct) (auto split: prod.splits)
  have s: "sorted_wrt (<) (allocated m ops)" "\<forall>n \<in> set (allocated m ops). sequenceNo m < n"
    using allocated_bounds [OF assms] by auto
  from s(1) have "distinct (allocated m ops)"
    by (simp add: strict_sorted_iff)
  with len s show ?thesis by simp
qed


theorem sequence_numbers_strictly_increasing_witness:
  "unat (sequenceNo (notification_NewManager :: unit notification_Manager)) + length ex_seq_ops < 2 ^ 64
   \<and> allocated notification_NewManager ex_seq_ops = [1, 2, 3, 4]
   \<and> sorted_wrt (<) (allocated notification_NewManager ex_seq_ops)
   \<and> distinct (allocated notification_NewManager ex_seq_ops)"
proof -
  have h: "unat (sequenceNo (notification_NewManager :: unit notification_Manager))
      + length ex_seq_ops < 2 ^ 64"
    by (simp add: notification_NewManager_def ex_seq_ops_def)
  have v: "allocated notification_NewManager ex_seq_ops = [1, 2, 3, 4]"
    by (simp add: notification_NewManager_def ex_seq_ops_def NextSequenceNo_def
        Broadcast_def Let_def)
  show ?thesis
    using h v sequence_numbers_strictly_increasing [OF h] by simp
qed

section \<open>Properties of the playback controller\<close>
















lemma totalRemaining_timer [simp]:
  "totalRemaining tnow (c\<lparr> depletionTimerCancel := v \<rparr>) = totalRemaining tnow c"
  by (simp add: totalRemaining_def getRemainingDurationLocked_def Let_def split: option.splits)








section \<open>Properties of the duplicate filter\<close>

lemma isRemaster_spec:
  "isRemaster U track1 track2 \<longleftrightarrow>
     normalizeTrackName U (Name track1) = normalizeTrackName U (Name track2)
     \<and> Artists track1 \<noteq> [] \<and> Artists track2 \<noteq> []
     \<and> EqualFold U (hd (Artists track1)) (hd (Artists track2))"
  by (auto simp: isRemaster_def isSameArtist_def Let_def hd_conv_nth)

lemma duplicate_loop_spec:
  "duplicate_loop U qs t =
     (if \<exists>q \<in> set qs. spec_duplicate U (qt_Track q) t then Reject ''duplicate_track'' else Accept)"
  by (induction qs) (auto simp: spec_duplicate_def isRemaster_spec Reject_def Accept_def)









section \<open>Skipping and the played history\<close>

lemma played_sendEventLocked [simp]: "played (sendEventLocked e c) = played c"
  by (simp add: sendEventLocked_def)

lemma queue_sendEventLocked [simp]: "queue (sendEventLocked e c) = queue c"
  by (simp add: sendEventLocked_def)

lemma currentTrack_sendEventLocked [simp]: "currentTrack (sendEventLocked e c) = currentTrack c"
  by (simp add: sendEventLocked_def)

lemma played_checkDepletionLocked [simp]: "played (checkDepletionLocked tnow c) = played c"
  by (simp add: checkDepletionLocked_def Let_def startWallClockTimer_def)

lemma queue_checkDepletionLocked [simp]: "queue (checkDepletionLocked tnow c) = queue c"
  by (simp add: checkDepletionLocked_def Let_def startWallClockTimer_def)

lemma currentTrack_checkDepletionLocked [simp]:
  "currentTrack (checkDepletionLocked tnow c) = currentTrack c"
  by (simp add: checkDepletionLocked_def Let_def startWallClockTimer_def)

lemma playNextLocked_lists:
  "played (snd (playNextLocked tnow b c))
     = (case queue c of [] \<Rightarrow> played c
        | qt # rest \<Rightarrow> (case currentTrack c of None \<Rightarrow> played c | Some ct \<Rightarrow> played c @ [ct]))"
  "queue (snd (playNextLocked tnow b c)) = tl (queue c)"
  "currentTrack (snd (playNextLocked tnow b c))
     = (case queue c of [] \<Rightarrow> currentTrack c | qt # rest \<Rightarrow> Some qt)"
  by (simp_all add: playNextLocked_def Let_def startTrackTimer_def startWallClockTimer_def
      split: list.splits option.splits)

lemma Skip_lists:
  assumes "currentTrack c = Some t"
  shows "played (snd (Skip tnow c)) = played c"
    "queue (snd (Skip tnow c)) = tl (queue c)"
    "currentTrack (snd (Skip tnow c)) = (case queue c of [] \<Rightarrow> None | qt # rest \<Rightarrow> Some qt)"
  using assms by (simp_all add: Skip_def Let_def playNextLocked_lists split: list.splits)

lemma GetAllTracks_Skip:
  assumes "currentTrack c = Some t"
  shows "GetAllTracks (snd (Skip tnow c)) = played c @ queue c"
  using assms by (cases "queue c") (simp_all add: GetAllTracks_def Skip_lists)

lemma onTrackEndLocked_played:
  assumes "currentTrack c = Some t"
  shows "played (onTrackEndLocked tnow c) = played c @ [t]"
  using assms
  by (simp add: onTrackEndLocked_def Let_def playNextLocked_lists split: list.splits)

text \<open>
  Claim C9.  \<^verbatim>\<open>Skip\<close> leaves the played history as it is, while a natural track
  end appends the ended track to it.  After skipping the current track \<open>t\<close>,
  \<^verbatim>\<open>GetAllTracks\<close> is the old list without the entry of \<open>t\<close> (before, that
  entry made the duplicate filter reject a request for the track).  A new request for
  \<open>t\<close> then passes the duplicate filter if and only if no other played or queued
  entry is a duplicate of \<open>t\<close> (the same id, or the same normalized name and first
  artist); in that case the track appears neither in \<^verbatim>\<open>GetAllTracks\<close> nor in
  \<^verbatim>\<open>GetAllTrackIDs\<close>.
\<close>

theorem Skip_leaves_played_unchanged:
  "played (snd (Skip tnow c)) = played c
   \<and> (currentTrack c = Some t \<longrightarrow>
        played (onTrackEndLocked tnow c) = played c @ [t]
        \<and> GetAllTracks c = played c @ [t] @ queue c
        \<and> GetAllTracks (snd (Skip tnow c)) = played c @ queue c
        \<and> DuplicateTrackFilter_Check U \<lparr> queueManager_GetAllTracks = GetAllTracks c \<rparr>
              req (qt_Track t) l = Reject ''duplicate_track''
        \<and> (DuplicateTrackFilter_Check U
                \<lparr> queueManager_GetAllTracks = GetAllTracks (snd (Skip tnow c)) \<rparr>
                req (qt_Track t) l = Accept
             \<longleftrightarrow> (\<forall>q \<in> set (played c @ queue c).
                    \<not> spec_duplicate U (qt_Track q) (qt_Track t))))
   \<and> (currentTrack c = Some t
        \<and> (\<forall>q \<in> set (played c @ queue c). \<not> spec_duplicate U (qt_Track q) (qt_Track t))
       \<longrightarrow> t \<notin> set (GetAllTracks (snd (Skip tnow c)))
           \<and> ID (qt_Track t) \<notin> set (GetAllTrackIDs (snd (Skip tnow c)))
           \<and> DuplicateTrackFilter_Check U
                \<lparr> queueManager_GetAllTracks = GetAllTracks (snd (Skip tnow c)) \<rparr>
                req (qt_Track t) l = Accept)"
proof (intro conjI impI)
  show "played (snd (Skip tnow c)) = played c"
  proof (cases "currentTrack c")
    case None
    then show ?thesis by (simp add: Skip_def)
  next
    case (Some a)
    then show ?thesis by (rule Skip_lists(1))
  qed
next
  assume "currentTrack c = Some t"
  then show "played (onTrackEndLocked tnow c) = played c @ [t]"
    by (rule onTrackEndLocked_played)
next
  assume "currentTrack c = Some t"
  then show "GetAllTracks c = played c @ [t] @ queue c"
    by (simp add: GetAllTracks_def)
next
  assume "currentTrack c = Some t"
  then show "GetAllTracks (snd (Skip tnow c)) = played c @ queue c"
    by (rule GetAllTracks_Skip)
next
  assume "currentTrack c = Some t"
  then show "DuplicateTrackFilter_Check U \<lparr> queueManager_GetAllTracks = GetAllTracks c \<rparr>
              req (qt_Track t) l = Reject ''duplicate_track''"
    by (auto simp: DuplicateTrackFilter_Check_def duplicate_loop_spec GetAllTracks_def
        spec_duplicate_def)
next
  assume "currentTrack c = Some t"
  then have all: "GetAllTracks (snd (Skip tnow c)) = played c @ queue c"
    by (rule GetAllTracks_Skip)
  have ne: "Reject ''duplicate_track'' \<noteq> Accept"
    by (simp add: Reject_def Accept_def)
  show "DuplicateTrackFilter_Check U
                \<lparr> queueManager_GetAllTracks = GetAllTracks (snd (Skip tnow c)) \<rparr>
                req (qt_Track t) l = Accept
             \<longleftrightarrow> (\<forall>q \<in> set (played c @ queue c).
                    \<not> spec_duplicate U (qt_Track q) (qt_Track t))"
    using ne unfolding all
    by (simp add: DuplicateTrackFilter_Check_def duplicate_loop_spec)
next
  assume a: "currentTrack c = Some t
        \<and> (\<forall>q \<in> set (played c @ queue c). \<not> spec_duplicate U (qt_Track q) (qt_Track t))"
  then have all: "GetAllTracks (snd (Skip tnow c)) = played c @ queue c"
    by (simp add: GetAllTracks_Skip)
  from a have nd: "\<forall>q \<in> set (played c @ queue c). \<not> spec_duplicate U (qt_Track q) (qt_Track t)"
    by simp
  have self: "spec_duplicate U (qt_Track t) (qt_Track t)" by (simp add: spec_duplicate_def)
  show "t \<notin> set (GetAllTracks (snd (Skip tnow c)))"
    using all nd self by auto
  have ids: "GetAllTrackIDs (snd (Skip tnow c)) = map (\<lambda>qt. ID (qt_Track qt)) (played c @ queue c)"
    using a by (cases "queue c") (simp_all add: GetAllTrackIDs_def Skip_lists)
  show "ID (qt_Track t) \<notin> set (GetAllTrackIDs (snd (Skip tnow c)))"
    using nd unfolding ids by (auto simp: spec_duplicate_def)
  show "DuplicateTrackFilter_Check U
                \<lparr> queueManager_GetAllTracks = GetAllTracks (snd (Skip tnow c)) \<rparr>
                req (qt_Track t) l = Accept"
    using nd all by (simp add: DuplicateTrackFilter_Check_def duplicate_loop_spec)
qed

theorem Skip_leaves_played_unchanged_witness:
  "currentTrack ex_playing = Some ex_qtA
   \<and> played ex_playing @ queue ex_playing = [ex_qtB]
   \<and> \<not> spec_duplicate ex_unicode (qt_Track ex_qtB) (qt_Track ex_qtA)
   \<and> played (snd (Skip 5000000000 ex_playing)) = []
   \<and> played (onTrackEndLocked 5000000000 ex_playing) = [ex_qtA]
   \<and> GetAllTracks (snd (Skip 5000000000 ex_playing)) = [ex_qtB]
   \<and> DuplicateTrackFilter_Check ex_unicode
         \<lparr> queueManager_GetAllTracks = GetAllTracks ex_playing \<rparr>
         ex_request (qt_Track ex_qtA) ex_listener = Reject ''duplicate_track''
   \<and> DuplicateTrackFilter_Check ex_unicode
         \<lparr> queueManager_GetAllTracks = GetAllTracks (snd (Skip 5000000000 ex_playing)) \<rparr>
         ex_request (qt_Track ex_qtA) ex_listener = Accept"
proof -
  have cur: "currentTrack ex_playing = Some ex_qtA" by code_simp
  have pl: "played ex_playing = []" by code_simp
  have qu: "queue ex_playing = [ex_qtB]" by code_simp
  have nd: "\<not> spec_duplicate ex_unicode (qt_Track ex_qtB) (qt_Track ex_qtA)" by code_simp
  have g1: "GetAllTracks ex_playing = [ex_qtA, ex_qtB]"
    by (simp add: GetAllTracks_def cur pl qu)
  have g2: "GetAllTracks (snd (Skip 5000000000 ex_playing)) = [ex_qtB]"
    using GetAllTracks_Skip [OF cur] by (simp add: pl qu)
  show ?thesis
    using nd Skip_leaves_played_unchanged [where tnow = 5000000000 and c = ex_playing
        and t = ex_qtA and req = ex_request and l = ex_listener and U = ex_unicode]
    by (simp add: cur pl qu g1 g2)
qed

text \<open>
  Claim C9, as it is worded: after every \<^verbatim>\<open>Skip\<close> the skipped track no longer
  appears in \<^verbatim>\<open>GetAllTracks\<close> and a new request for it passes the duplicate
  filter.  When the opening playlist holds a track twice (the playlist is enqueued as it
  is) and the first entry is skipped, the second entry becomes the current track: the
  track is still listed and a request for it is rejected.
\<close>

theorem Skip_of_repeated_track_still_duplicate:
  "currentTrack ex_playing_repeated = Some ex_qtA_opening
   \<and> GetAllTracks (snd (Skip 5000000000 ex_playing_repeated)) = [ex_qtA_opening]
   \<and> GetAllTrackIDs (snd (Skip 5000000000 ex_playing_repeated))
       = [ID (qt_Track ex_qtA_opening)]
   \<and> DuplicateTrackFilter_Check ex_unicode
         \<lparr> queueManager_GetAllTracks = GetAllTracks (snd (Skip 5000000000 ex_playing_repeated)) \<rparr>
         ex_request (qt_Track ex_qtA_opening) ex_listener = Reject ''duplicate_track''"
  by code_simp

section \<open>Properties of the session manager\<close>

lemma playing_unchanged_refl: "playing_unchanged c c"
  by (simp add: playing_unchanged_def)

lemma playing_unchanged_trans:
  "playing_unchanged a b \<Longrightarrow> playing_unchanged b c \<Longrightarrow> playing_unchanged a c"
  by (simp add: playing_unchanged_def)

lemma playing_unchanged_check: "playing_unchanged c (checkDepletionLocked tnow c)"
  by (simp add: playing_unchanged_def checkDepletionLocked_def Let_def sendEventLocked_def
      startWallClockTimer_def)

lemma playing_unchanged_Enqueue: "playing_unchanged c (Enqueue tnow qt c)"
proof -
  have "playing_unchanged c (c\<lparr> queue := queue c @ [qt], depletionNotified := False \<rparr>)"
    by (simp add: playing_unchanged_def)
  then show ?thesis
    unfolding Enqueue_def by (rule playing_unchanged_trans) (rule playing_unchanged_check)
qed

lemma queue_Enqueue: "queue (Enqueue tnow qt c) = queue c @ [qt]"
  by (simp add: Enqueue_def checkDepletionLocked_def Let_def sendEventLocked_def
      startWallClockTimer_def)

lemma playing_unchanged_ClearQueue: "playing_unchanged c (snd (ClearQueue c))"
  by (simp add: playing_unchanged_def ClearQueue_def)

lemma addRecentArtistsLocked_frame:
  "addRecentArtistsLocked artists m = Inr m' \<Longrightarrow>
   playback m' = playback m \<and> listenerReg m' = listenerReg m \<and> stateMgr m' = stateMgr m
   \<and> maxRecentArtists m' = maxRecentArtists m \<and> systemUser m' = systemUser m
   \<and> endingDisplayName m' = endingDisplayName m"
proof (induction artists arbitrary: m)
  case Nil
  then show ?case by simp
next
  case (Cons a as)
  show ?case
  proof (cases "sint (maxRecentArtists m) < int (length (a # recentArtists m))")
    case True
    show ?thesis
    proof (cases "sint (maxRecentArtists m) < 0")
      case neg: True
      with True Cons.prems show ?thesis by (simp add: Let_def)
    next
      case False
      with True Cons.prems have
        "addRecentArtistsLocked as
           (m\<lparr> recentArtists := take (nat (sint (maxRecentArtists m))) (a # recentArtists m) \<rparr>)
         = Inr m'"
        by (simp add: Let_def)
      from Cons.IH [OF this] show ?thesis by simp
    qed
  next
    case False
    with Cons.prems have
      "addRecentArtistsLocked as (m\<lparr> recentArtists := a # recentArtists m \<rparr>) = Inr m'"
      by (simp add: Let_def)
    from Cons.IH [OF this] show ?thesis by simp
  qed
qed

lemma addRecentArtistsLocked_total:
  "0 \<le> sint (maxRecentArtists m) \<Longrightarrow> \<exists>m'. addRecentArtistsLocked artists m = Inr m'"
proof (induction artists arbitrary: m)
  case Nil
  then show ?case by simp
next
  case (Cons a as)
  have "\<exists>m'. addRecentArtistsLocked as
           (m\<lparr> recentArtists := take (nat (sint (maxRecentArtists m))) (a # recentArtists m) \<rparr>)
         = Inr m'"
    using Cons.prems by (intro Cons.IH) simp
  moreover have "\<exists>m'. addRecentArtistsLocked as (m\<lparr> recentArtists := a # recentArtists m \<rparr>) = Inr m'"
    using Cons.prems by (intro Cons.IH) simp
  ultimately show ?case using Cons.prems by (simp add: Let_def)
qed

lemma enqueuePlaylistTracks_frame:
  "enqueuePlaylistTracks now tracks nm ty m = Inr m' \<Longrightarrow>
   playing_unchanged (playback m) (playback m')
   \<and> map qt_Track (queue (playback m')) = map qt_Track (queue (playback m)) @ tracks
   \<and> stateMgr m' = stateMgr m \<and> listenerReg m' = listenerReg m"
proof (induction tracks arbitrary: m)
  case Nil
  then show ?case by (simp add: playing_unchanged_refl)
next
  case (Cons t ts)
  define qt where "qt = \<lparr> qt_Track = t,
                 qt_Requester = \<lparr> requester_ID = session_ID (systemUser m),
                                  requester_Name = nm,
                                  requester_ExternalUserID = [],
                                  requester_Type = ty \<rparr>,
                 AddedAt = now \<rparr>"
  define m1 where "m1 = m\<lparr> playback := Enqueue now qt (playback m) \<rparr>"
  from Cons.prems obtain m2 where
    a: "addRecentArtistsLocked (Artists t) m1 = Inr m2" and
    b: "enqueuePlaylistTracks now ts nm ty m2 = Inr m'"
    by (auto simp: Let_def and_then_def qt_def m1_def split: sum.splits)
  note f = addRecentArtistsLocked_frame [OF a]
  note IH = Cons.IH [OF b]
  have pu: "playing_unchanged (playback m) (playback m2)"
    using f by (simp add: m1_def playing_unchanged_Enqueue)
  have q: "map qt_Track (queue (playback m2)) = map qt_Track (queue (playback m)) @ [t]"
    using f by (simp add: m1_def queue_Enqueue qt_def)
  show ?case
    using IH pu q f by (auto simp: m1_def intro: playing_unchanged_trans)
qed

lemma enqueuePlaylistTracks_total:
  "0 \<le> sint (maxRecentArtists m) \<Longrightarrow> \<exists>m'. enqueuePlaylistTracks now tracks nm ty m = Inr m'"
proof (induction tracks arbitrary: m)
  case Nil
  then show ?case by simp
next
  case (Cons t ts)
  define m1 where "m1 = m\<lparr> playback := Enqueue now \<lparr> qt_Track = t,
                 qt_Requester = \<lparr> requester_ID = session_ID (systemUser m),
                                  requester_Name = nm,
                                  requester_ExternalUserID = [],
                                  requester_Type = ty \<rparr>,
                 AddedAt = now \<rparr> (playback m) \<rparr>"
  have "0 \<le> sint (maxRecentArtists m1)" using Cons.prems by (simp add: m1_def)
  from addRecentArtistsLocked_total [OF this] obtain m2 where
    a: "addRecentArtistsLocked (Artists t) m1 = Inr m2" by blast
  have "0 \<le> sint (maxRecentArtists m2)"
    using addRecentArtistsLocked_frame [OF a] Cons.prems by (simp add: m1_def)
  from Cons.IH [OF this] obtain m' where "enqueuePlaylistTracks now ts nm ty m2 = Inr m'"
    by blast
  with a show ?case by (simp add: Let_def and_then_def m1_def)
qed

lemma transitionToEnding_playing:
  assumes "transitionToEnding now endingTracks m = Inr m'"
  shows "playing_unchanged (playback m) (playback m')"
proof (cases "GetPhase (stateMgr m) = PhaseActive \<and> endingPlaylistURL m \<noteq> []
    \<and> (\<exists>tracks. endingTracks = Inr tracks \<and> tracks \<noteq> [])")
  case True
  then obtain tracks where t: "endingTracks = Inr tracks" "tracks \<noteq> []" by blast
  define m2 where "m2 = m\<lparr> stateMgr := SetPhase PhaseEnding (StopAccepting (stateMgr m)),
     playback := snd (ClearQueue (playback m)) \<rparr>"
  have e: "enqueuePlaylistTracks now tracks (endingDisplayName m2) RequesterTypeEnding m2 = Inr m'"
    using assms True t by (simp add: transitionToEnding_def Let_def m2_def ClearQueue_def)
  have "playing_unchanged (playback m) (playback m2)"
    by (simp add: m2_def playing_unchanged_ClearQueue)
  with enqueuePlaylistTracks_frame [OF e] show ?thesis
    by (blast intro: playing_unchanged_trans)
next
  case False
  then have "playback m' = playback m"
    using assms
    by (auto simp: transitionToEnding_def Let_def split: if_splits sum.splits)
  then show ?thesis by (simp add: playing_unchanged_refl)
qed

lemma transitionToEnding_queue:
  assumes "GetPhase (stateMgr m) = PhaseActive" "endingPlaylistURL m \<noteq> []"
    "endingTracks = Inr tracks" "tracks \<noteq> []" "0 \<le> sint (maxRecentArtists m)"
  shows "\<exists>m'. transitionToEnding now endingTracks m = Inr m'
          \<and> map qt_Track (queue (playback m')) = tracks
          \<and> phase (stateMgr m') = PhaseEnding \<and> accepting (stateMgr m') = NotAccepting"
proof -
  define m2 where "m2 = m\<lparr> stateMgr := SetPhase PhaseEnding (StopAccepting (stateMgr m)),
     playback := snd (ClearQueue (playback m)) \<rparr>"
  have "0 \<le> sint (maxRecentArtists m2)" using assms by (simp add: m2_def)
  from enqueuePlaylistTracks_total [OF this] obtain m' where
    e: "enqueuePlaylistTracks now tracks (endingDisplayName m2) RequesterTypeEnding m2 = Inr m'"
    by blast
  have t: "transitionToEnding now endingTracks m = Inr m'"
    using assms e by (simp add: transitionToEnding_def Let_def m2_def ClearQueue_def)
  from enqueuePlaylistTracks_frame [OF e] have
    "map qt_Track (queue (playback m')) = tracks" "stateMgr m' = stateMgr m2"
    by (simp_all add: m2_def ClearQueue_def)
  with t show ?thesis
    by (auto simp: m2_def SetPhase_def StopAccepting_def)
qed

text \<open>
  Claim C10.  \<^verbatim>\<open>ClearQueue\<close> returns the queue as it was and changes nothing but
  the queue: the current track, the playback state, the played history, the fields of
  the virtual clock, the three timers, the event channel and the depletion flag are the
  same.  So the ending transition, which clears the queue and then enqueues the ending
  playlist, leaves the track being played, its clock and its track-end timer as they
  were: the queue becomes the ending playlist and the current track plays on to its end.
\<close>

theorem ClearQueue_only_empties_queue:
  "fst (ClearQueue c) = queue c
   \<and> snd (ClearQueue c) = c\<lparr> queue := [] \<rparr>
   \<and> playing_unchanged c (snd (ClearQueue c))
   \<and> depletionTimerCancel (snd (ClearQueue c)) = depletionTimerCancel c
   \<and> eventCh (snd (ClearQueue c)) = eventCh c
   \<and> depletionNotified (snd (ClearQueue c)) = depletionNotified c
   \<and> (transitionToEnding now endingTracks m = Inr m' \<longrightarrow>
        playing_unchanged (playback m) (playback m'))
   \<and> (GetPhase (stateMgr m) = PhaseActive \<and> endingPlaylistURL m \<noteq> []
        \<and> endingTracks = Inr tracks \<and> tracks \<noteq> [] \<and> 0 \<le> sint (maxRecentArtists m) \<longrightarrow>
        (\<exists>m2. transitionToEnding now endingTracks m = Inr m2
           \<and> map qt_Track (queue (playback m2)) = tracks
           \<and> currentTrack (playback m2) = currentTrack (playback m)
           \<and> state (playback m2) = state (playback m)
           \<and> startTime (playback m2) = startTime (playback m)
           \<and> timerCancel (playback m2) = timerCancel (playback m)
           \<and> played (playback m2) = played (playback m)))"
proof (intro conjI impI)
  assume "transitionToEnding now endingTracks m = Inr m'"
  then show "playing_unchanged (playback m) (playback m')"
    by (rule transitionToEnding_playing)
next
  assume a: "GetPhase (stateMgr m) = PhaseActive \<and> endingPlaylistURL m \<noteq> []
        \<and> endingTracks = Inr tracks \<and> tracks \<noteq> [] \<and> 0 \<le> sint (maxRecentArtists m)"
  then obtain m2 where
    t: "transitionToEnding now endingTracks m = Inr m2"
       "map qt_Track (queue (playback m2)) = tracks"
    using transitionToEnding_queue [of m endingTracks tracks now] by blast
  from transitionToEnding_playing [OF t(1)] t
  show "\<exists>m2. transitionToEnding now endingTracks m = Inr m2
           \<and> map qt_Track (queue (playback m2)) = tracks
           \<and> currentTrack (playback m2) = currentTrack (playback m)
           \<and> state (playback m2) = state (playback m)
           \<and> startTime (playback m2) = startTime (playback m)
           \<and> timerCancel (playback m2) = timerCancel (playback m)
           \<and> played (playback m2) = played (playback m)"
    by (auto simp: playing_unchanged_def)
qed (simp_all add: ClearQueue_def playing_unchanged_def)

lemma Chain_Execute_first_reject:
  "\<not> Accepted (Chain_Execute chain w req t l ty) \<Longrightarrow>
   \<exists>pre f post. chain = pre @ f # post \<and> filter_AppliesTo f ty
      \<and> filter_Check f w req t l = Chain_Execute chain w req t l ty
      \<and> list_all (\<lambda>g. filter_AppliesTo g ty \<longrightarrow> Accepted (filter_Check g w req t l)) pre"
proof (induction chain)
  case Nil
  then show ?case by (simp add: Accept_def)
next
  case (Cons g gs)
  show ?case
  proof (cases "filter_AppliesTo g ty \<and> \<not> Accepted (filter_Check g w req t l)")
    case True
    then have "g # gs = [] @ g # gs \<and> filter_AppliesTo g ty
      \<and> filter_Check g w req t l = Chain_Execute (g # gs) w req t l ty
      \<and> list_all (\<lambda>g. filter_AppliesTo g ty \<longrightarrow> Accepted (filter_Check g w req t l)) []"
      by (simp add: Let_def)
    then show ?thesis by blast
  next
    case False
    then have eq: "Chain_Execute (g # gs) w req t l ty = Chain_Execute gs w req t l ty"
      by (auto simp: Let_def)
    with Cons.prems have "\<not> Accepted (Chain_Execute gs w req t l ty)" by simp
    from Cons.IH [OF this] obtain pre f post where
      p: "gs = pre @ f # post" "filter_AppliesTo f ty"
        "filter_Check f w req t l = Chain_Execute gs w req t l ty"
        "list_all (\<lambda>g. filter_AppliesTo g ty \<longrightarrow> Accepted (filter_Check g w req t l)) pre"
      by blast
    have "g # gs = (g # pre) @ f # post \<and> filter_AppliesTo f ty
      \<and> filter_Check f w req t l = Chain_Execute (g # gs) w req t l ty
      \<and> list_all (\<lambda>g. filter_AppliesTo g ty \<longrightarrow> Accepted (filter_Check g w req t l)) (g # pre)"
      using p False eq by auto
    then show ?thesis by blast
  qed
qed

lemma Chain_Execute_accept:
  "Accepted (Chain_Execute chain w req t l ty) \<Longrightarrow>
   Chain_Execute chain w req t l ty = Accept
   \<and> list_all (\<lambda>g. filter_AppliesTo g ty \<longrightarrow> Accepted (filter_Check g w req t l)) chain"
  by (induction chain) (auto simp: Let_def split: if_splits)

text \<open>
  Claim C7.  \<^verbatim>\<open>RequestTrack\<close> returns \<open>(false, invalid_listener, nil)\<close> for an
  unknown listener; \<open>(false, track_not_found, nil)\<close> when the catalog fetch fails;
  \<open>(false, code, nil)\<close> when the chain, run for class USER, rejects, the code being
  that of the first applicable filter that rejects; and \<open>(true, "", nil)\<close> when
  the chain accepts, in which case the track is appended to the queue and the listener's
  pending count is incremented.  Whenever it returns, the error is nil, and when the
  request is not accepted the manager is unchanged.  (The recent-artist window is
  configured with a non-negative size; a negative one makes the slice expression of
  \<^verbatim>\<open>addRecentArtistsLocked\<close> panic.)
\<close>

theorem RequestTrack_outcomes:
  assumes "0 \<le> sint (maxRecentArtists m)"
  shows
  "(listeners (listenerReg m) lid = None \<longrightarrow>
      RequestTrack chain now fetched lid tid m = Inr ((False, ''invalid_listener'', None), [], m))
   \<and> (listeners (listenerReg m) lid = Some s \<and> fetched = Inl e \<longrightarrow>
      RequestTrack chain now fetched lid tid m = Inr ((False, ''track_not_found'', None), [], m))
   \<and> (listeners (listenerReg m) lid = Some s \<and> fetched = Inr t
        \<and> \<not> Accepted (Chain_Execute chain (now, m) \<lparr> ListenerID = lid, TrackID = tid \<rparr> t s
                          RequesterTypeUser) \<longrightarrow>
      RequestTrack chain now fetched lid tid m =
        Inr ((False,
              Code (Chain_Execute chain (now, m) \<lparr> ListenerID = lid, TrackID = tid \<rparr> t s
                      RequesterTypeUser),
              None), [], m)
      \<and> (\<exists>pre f post. chain = pre @ f # post \<and> filter_AppliesTo f RequesterTypeUser
            \<and> filter_Check f (now, m) \<lparr> ListenerID = lid, TrackID = tid \<rparr> t s
                = Chain_Execute chain (now, m) \<lparr> ListenerID = lid, TrackID = tid \<rparr> t s
                    RequesterTypeUser
            \<and> list_all (\<lambda>g. filter_AppliesTo g RequesterTypeUser \<longrightarrow>
                  Accepted (filter_Check g (now, m) \<lparr> ListenerID = lid, TrackID = tid \<rparr> t s))
                pre))
   \<and> (listeners (listenerReg m) lid = Some s \<and> fetched = Inr t
        \<and> Accepted (Chain_Execute chain (now, m) \<lparr> ListenerID = lid, TrackID = tid \<rparr> t s
                        RequesterTypeUser) \<longrightarrow>
      (\<exists>started m'.
          RequestTrack chain now fetched lid tid m = Inr ((True, [], None), started, m')
          \<and> map qt_Track (queue (playback m')) = map qt_Track (queue (playback m)) @ [t]
          \<and> listeners (listenerReg m') lid = Some (IncrementPendingTracks now s)
          \<and> PendingTracks (IncrementPendingTracks now s) = PendingTracks s + 1))
   \<and> (\<forall>ret started m'.
          RequestTrack chain now fetched lid tid m = Inr (ret, started, m') \<longrightarrow>
          snd (snd ret) = None \<and> (\<not> fst ret \<longrightarrow> started = [] \<and> m' = m))"
proof (intro conjI impI)
  assume "listeners (listenerReg m) lid = None"
  then show "RequestTrack chain now fetched lid tid m = Inr ((False, ''invalid_listener'', None), [], m)"
    by (simp add: RequestTrack_def registry_Get_def)
next
  assume "listeners (listenerReg m) lid = Some s \<and> fetched = Inl e"
  then show "RequestTrack chain now fetched lid tid m = Inr ((False, ''track_not_found'', None), [], m)"
    by (simp add: RequestTrack_def registry_Get_def)
next
  assume a: "listeners (listenerReg m) lid = Some s \<and> fetched = Inr t
        \<and> \<not> Accepted (Chain_Execute chain (now, m) \<lparr> ListenerID = lid, TrackID = tid \<rparr> t s
                          RequesterTypeUser)"
  then show "RequestTrack chain now fetched lid tid m =
        Inr ((False,
              Code (Chain_Execute chain (now, m) \<lparr> ListenerID = lid, TrackID = tid \<rparr> t s
                      RequesterTypeUser),
              None), [], m)"
    by (simp add: RequestTrack_def registry_Get_def Let_def)
  from a show "\<exists>pre f post. chain = pre @ f # post \<and> filter_AppliesTo f RequesterTypeUser
            \<and> filter_Check f (now, m) \<lparr> ListenerID = lid, TrackID = tid \<rparr> t s
                = Chain_Execute chain (now, m) \<lparr> ListenerID = lid, TrackID = tid \<rparr> t s
                    RequesterTypeUser
            \<and> list_all (\<lambda>g. filter_AppliesTo g RequesterTypeUser \<longrightarrow>
                  Accepted (filter_Check g (now, m) \<lparr> ListenerID = lid, TrackID = tid \<rparr> t s))
                pre"
    by (intro Chain_Execute_first_reject) simp
next
  assume a: "listeners (listenerReg m) lid = Some s \<and> fetched = Inr t
        \<and> Accepted (Chain_Execute chain (now, m) \<lparr> ListenerID = lid, TrackID = tid \<rparr> t s
                        RequesterTypeUser)"
  define qt where "qt = \<lparr> qt_Track = t,
       qt_Requester = \<lparr> requester_ID = session_ID s, requester_Name = DisplayName s,
                        requester_ExternalUserID = ExternalUserID s,
                        requester_Type = RequesterTypeUser \<rparr>,
       AddedAt = now \<rparr>"
  define m1 where "m1 = m\<lparr> playback := Enqueue now qt (playback m) \<rparr>"
  have "0 \<le> sint (maxRecentArtists m1)" using assms by (simp add: m1_def)
  from addRecentArtistsLocked_total [OF this] obtain m2 where
    r: "addRecentArtistsLocked (Artists t) m1 = Inr m2" by blast
  note f = addRecentArtistsLocked_frame [OF r]
  define m3 where "m3 = m2\<lparr> listenerReg :=
      snd (registry_IncrementPending now lid (listenerReg m2)) \<rparr>"
  have pb3: "playback m3 = playback m2" by (simp add: m3_def)
  have res: "RequestTrack chain now fetched lid tid m =
      Inr ((True, [], None), (if GetState (playback m3) = StateIdle then [GoPlay] else []), m3)"
    using a r
    by (simp add: RequestTrack_def registry_Get_def Let_def and_then_def addRecentArtists_def
        qt_def [symmetric] m1_def [symmetric] m3_def [symmetric] pb3)
  have q: "map qt_Track (queue (playback m3)) = map qt_Track (queue (playback m)) @ [t]"
    using f by (simp add: m3_def m1_def queue_Enqueue qt_def)
  have l: "listeners (listenerReg m3) lid = Some (IncrementPendingTracks now s)"
    using f a by (simp add: m3_def m1_def registry_IncrementPending_def)
  have p: "PendingTracks (IncrementPendingTracks now s) = PendingTracks s + 1"
    by (simp add: IncrementPendingTracks_def)
  show "\<exists>started m'.
          RequestTrack chain now fetched lid tid m = Inr ((True, [], None), started, m')
          \<and> map qt_Track (queue (playback m')) = map qt_Track (queue (playback m)) @ [t]
          \<and> listeners (listenerReg m') lid = Some (IncrementPendingTracks now s)
          \<and> PendingTracks (IncrementPendingTracks now s) = PendingTracks s + 1"
    using res q l p by blast
next
  show "\<forall>ret started m'.
          RequestTrack chain now fetched lid tid m = Inr (ret, started, m') \<longrightarrow>
          snd (snd ret) = None \<and> (\<not> fst ret \<longrightarrow> started = [] \<and> m' = m)"
    by (auto simp: RequestTrack_def registry_Get_def Let_def and_then_def
        split: option.splits sum.splits if_splits)
qed

theorem ClearQueue_only_empties_queue_witness:
  "GetPhase (stateMgr ex_session) = PhaseActive \<and> endingPlaylistURL ex_session \<noteq> []
   \<and> 0 \<le> sint (maxRecentArtists ex_session)
   \<and> fst (ClearQueue ex_playing) = [ex_qtB]
   \<and> currentTrack (snd (ClearQueue ex_playing)) = Some ex_qtA
   \<and> (\<exists>m2. transitionToEnding 7000000000 (Inr [ex_trackC]) ex_session = Inr m2
          \<and> map qt_Track (queue (playback m2)) = [ex_trackC]
          \<and> currentTrack (playback m2) = Some ex_qtA
          \<and> state (playback m2) = StatePlaying
          \<and> startTime (playback m2) = startTime ex_playing
          \<and> timerCancel (playback m2) = Some (Timer 20100000000 CallOnTrackEnd)
          \<and> played (playback m2) = played ex_playing)"
proof -
  have s: "GetPhase (stateMgr ex_session) = PhaseActive" "endingPlaylistURL ex_session \<noteq> []"
    "0 \<le> sint (maxRecentArtists ex_session)"
    by code_simp+
  have p: "playback ex_session = ex_playing"
    by (simp add: ex_session_def)
  have c: "currentTrack ex_playing = Some ex_qtA" "queue ex_playing = [ex_qtB]"
    "state ex_playing = StatePlaying"
    "timerCancel ex_playing = Some (Timer 20100000000 CallOnTrackEnd)"
    by code_simp+
  show ?thesis
    using ClearQueue_only_empties_queue [of ex_playing 7000000000 "Inr [ex_trackC]" ex_session
        ex_session "[ex_trackC]"]
    by (simp add: s p c)
qed

theorem RequestTrack_outcomes_witness:
  "0 \<le> sint (maxRecentArtists ex_session)
   \<and> listeners (listenerReg ex_session) ''l1'' = Some ex_listener
   \<and> listeners (listenerReg ex_session) ''zz'' = None
   \<and> RequestTrack ex_chain 1000000000 (Inr ex_trackC) ''zz'' ''C'' ex_session
       = Inr ((False, ''invalid_listener'', None), [], ex_session)
   \<and> RequestTrack ex_chain 1000000000 (Inl SpotifyError) ''l1'' ''C'' ex_session
       = Inr ((False, ''track_not_found'', None), [], ex_session)
   \<and> RequestTrack ex_chain 1000000000 (Inr ex_trackC) ''l1'' ''C'' ex_session_pending
       = Inr ((False, ''user_pending'', None), [], ex_session_pending)
   \<and> (\<exists>started m'.
         RequestTrack ex_chain 1000000000 (Inr ex_trackC) ''l1'' ''C'' ex_session
           = Inr ((True, [], None), started, m')
         \<and> map qt_Track (queue (playback m')) = [qt_Track ex_qtB, ex_trackC]
         \<and> listeners (listenerReg m') ''l1'' = Some (IncrementPendingTracks 1000000000 ex_listener)
         \<and> PendingTracks (IncrementPendingTracks 1000000000 ex_listener)
             = PendingTracks ex_listener + 1)"
proof -
  have mx: "0 \<le> sint (maxRecentArtists ex_session)" by code_simp
  have mxp: "0 \<le> sint (maxRecentArtists ex_session_pending)" by code_simp
  have l: "listeners (listenerReg ex_session) ''l1'' = Some ex_listener"
    "listeners (listenerReg ex_session) ''zz'' = None"
    "listeners (listenerReg ex_session_pending) ''l1'' = Some (IncrementPendingTracks 0 ex_listener)"
    by (simp_all add: ex_session_def ex_session_pending_def)
  have q: "queue (playback ex_session) = [ex_qtB]" by code_simp
  have acc: "Accepted (Chain_Execute ex_chain (1000000000, ex_session)
       \<lparr> ListenerID = ''l1'', TrackID = ''C'' \<rparr> ex_trackC ex_listener RequesterTypeUser)"
    by code_simp
  have rej: "Chain_Execute ex_chain (1000000000, ex_session_pending)
       \<lparr> ListenerID = ''l1'', TrackID = ''C'' \<rparr> ex_trackC (IncrementPendingTracks 0 ex_listener)
       RequesterTypeUser = Reject ''user_pending''"
    by code_simp
  note a = RequestTrack_outcomes [OF mx, where lid = "''zz''" and s = "ex_listener"
      and fetched = "Inr ex_trackC" and e = SpotifyError and chain = ex_chain and now = 1000000000
      and tid = "''C''" and t = ex_trackC]
  note b = RequestTrack_outcomes [OF mx, where lid = "''l1''" and s = "ex_listener"
      and fetched = "Inl SpotifyError" and e = SpotifyError and chain = ex_chain and now = 1000000000
      and tid = "''C''" and t = ex_trackC]
  note c = RequestTrack_outcomes [OF mxp, where lid = "''l1''" and s = "IncrementPendingTracks 0 ex_listener"
      and fetched = "Inr ex_trackC" and e = SpotifyError and chain = ex_chain and now = 1000000000
      and tid = "''C''" and t = ex_trackC]
  note d = RequestTrack_outcomes [OF mx, where lid = "''l1''" and s = "ex_listener"
      and fetched = "Inr ex_trackC" and e = SpotifyError and chain = ex_chain and now = 1000000000
      and tid = "''C''" and t = ex_trackC]
  have r1: "RequestTrack ex_chain 1000000000 (Inr ex_trackC) ''zz'' ''C'' ex_session
       = Inr ((False, ''invalid_listener'', None), [], ex_session)"
    using a l by simp
  have r2: "RequestTrack ex_chain 1000000000 (Inl SpotifyError) ''l1'' ''C'' ex_session
       = Inr ((False, ''track_not_found'', None), [], ex_session)"
    using b l by simp
  have r3: "RequestTrack ex_chain 1000000000 (Inr ex_trackC) ''l1'' ''C'' ex_session_pending
       = Inr ((False, ''user_pending'', None), [], ex_session_pending)"
    using c l rej by (simp add: Reject_def)
  have r4: "\<exists>started m'.
         RequestTrack ex_chain 1000000000 (Inr ex_trackC) ''l1'' ''C'' ex_session
           = Inr ((True, [], None), started, m')
         \<and> map qt_Track (queue (playback m')) = [qt_Track ex_qtB, ex_trackC]
         \<and> listeners (listenerReg m') ''l1'' = Some (IncrementPendingTracks 1000000000 ex_listener)
         \<and> PendingTracks (IncrementPendingTracks 1000000000 ex_listener)
             = PendingTracks ex_listener + 1"
    using d l acc q by simp
  show ?thesis using mx l r1 r2 r3 r4 by simp
qed

section \<open>The phase of a session\<close>

text \<open>Filling the queue with background music leaves the session state alone.\<close>

lemma bgm_candidates_stateMgr:
  "bgm_candidates chain now cs m = Inr (returned, started, m') \<Longrightarrow> stateMgr m' = stateMgr m"
proof (induction cs arbitrary: m)
  case Nil
  then show ?case by simp
next
  case (Cons c cs)
  show ?case
  proof (cases "\<not> IsQueueEmpty (playback m)")
    case True
    with Cons.prems show ?thesis by simp
  next
    case q: False
    show ?thesis
    proof (cases "IsInQueue (ID (cand_Track c)) (playback m)
        \<or> \<not> Accepted (Chain_Execute chain (now, m)
              \<lparr> ListenerID = session_ID (systemUser m), TrackID = ID (cand_Track c) \<rparr>
              (cand_Track c) (systemUser m) RequesterTypeBGM)")
      case True
      with q Cons.prems have "bgm_candidates chain now cs m = Inr (returned, started, m')"
        by (auto simp: Let_def split: if_splits)
      then show ?thesis by (rule Cons.IH)
    next
      case False
      with q Cons.prems obtain m2 where
        "addRecentArtistsLocked (Artists (cand_Track c))
           (m\<lparr> playback := Enqueue now
                 \<lparr> qt_Track = cand_Track c,
                   qt_Requester = \<lparr> requester_ID = session_ID (systemUser m),
                                    requester_Name = cand_DisplayName c,
                                    requester_ExternalUserID = [],
                                    requester_Type = RequesterTypeBGM \<rparr>,
                   AddedAt = now \<rparr> (playback m) \<rparr>) = Inr m2" "m' = m2"
        by (auto simp: Let_def and_then_def addRecentArtists_def split: sum.splits if_splits)
      then show ?thesis using addRecentArtistsLocked_frame by fastforce
    qed
  qed
qed

lemma filterByRecentArtists_stateMgr:
  "stateMgr (snd (filterByRecentArtists cs m)) = stateMgr m"
  by (simp add: filterByRecentArtists_def Let_def)

lemma bgm_retries_stateMgr:
  "bgm_retries n chain now responses m = Inr (started, m') \<Longrightarrow> stateMgr m' = stateMgr m"
proof (induction n chain now responses m rule: bgm_retries.induct)
  case (1 chain now responses m)
  then show ?case by simp
next
  case (2 n chain now m)
  then show ?case by simp
next
  case (3 n chain now response responses m)
  show ?case
  proof (cases response)
    case (Inl err)
    with "3.prems" show ?thesis by simp
  next
    case (Inr candidates)
    show ?thesis
    proof (cases "length candidates = 0
        \<or> GetPhase (stateMgr m) \<noteq> PhaseActive \<or> \<not> IsAccepting (stateMgr m)")
      case True
      with Inr "3.prems" show ?thesis by (auto split: if_splits)
    next
      case False
      obtain filtered m1 where f: "filterByRecentArtists candidates m = (filtered, m1)"
        by (cases "filterByRecentArtists candidates m")
      have s1: "stateMgr m1 = stateMgr m"
        using filterByRecentArtists_stateMgr [of candidates m] f by simp
      from "3.prems" Inr False f obtain returned st m2 where
        c: "bgm_candidates chain now filtered m1 = Inr (returned, st, m2)" and
        r: "if returned then Inr (st, m2) = Inr (started, m')
            else bgm_retries n chain now responses m2 = Inr (started, m')"
        by (auto simp: and_then_def split: sum.splits prod.splits if_splits)
      have s2: "stateMgr m2 = stateMgr m1" using c by (rule bgm_candidates_stateMgr)
      show ?thesis
      proof (cases returned)
        case True
        with r s1 s2 show ?thesis by simp
      next
        case nr: False
        with r have rec: "bgm_retries n chain now responses m2 = Inr (started, m')" by simp
        have l: "length candidates \<noteq> 0" using False by simp
        have ph: "\<not> (GetPhase (stateMgr m) \<noteq> PhaseActive \<or> \<not> IsAccepting (stateMgr m))"
          using False by simp
        have nf: "\<not> False" by simp
        have "stateMgr m' = stateMgr m2"
          by (rule "3.IH" [OF Inr l ph refl f [symmetric] nf rec])
        with s1 s2 show ?thesis by simp
      qed
    qed
  qed
qed


lemma fillQueueWithBGM_stateMgr:
  "fillQueueWithBGM chain now responses m = Inr (started, m') \<Longrightarrow> stateMgr m' = stateMgr m"
  unfolding fillQueueWithBGM_def by (rule bgm_retries_stateMgr)

lemma phase_not_regressed_refl: "phase_not_regressed s s"
  by (simp add: phase_not_regressed_def)

lemma phase_not_regressed_trans:
  "phase_not_regressed s1 s2 \<Longrightarrow> phase_not_regressed s2 s3 \<Longrightarrow> phase_not_regressed s1 s3"
  by (auto simp: phase_not_regressed_def)

lemma transitionToEnding_phase:
  assumes "transitionToEnding now endingTracks m = Inr m'"
    and "accepting_only_active (stateMgr m)"
  shows "phase_not_regressed (stateMgr m) (stateMgr m') \<and> accepting_only_active (stateMgr m')"
proof (cases "GetPhase (stateMgr m) \<noteq> PhaseActive")
  case True
  with assms show ?thesis
    by (simp add: transitionToEnding_def phase_not_regressed_refl)
next
  case False
  define m1 where "m1 = m\<lparr> stateMgr := SetPhase PhaseEnding (StopAccepting (stateMgr m)) \<rparr>"
  have s1: "phase (stateMgr m1) = PhaseEnding" "accepting (stateMgr m1) = NotAccepting"
    by (simp_all add: m1_def SetPhase_def StopAccepting_def)
  have "stateMgr m' = stateMgr m1"
  proof (cases "endingPlaylistURL m1 \<noteq> []")
    case u: True
    show ?thesis
    proof (cases endingTracks)
      case (Inl err)
      with assms(1) False u show ?thesis
        by (simp add: transitionToEnding_def Let_def m1_def)
    next
      case (Inr tracks)
      show ?thesis
      proof (cases "length tracks = 0")
        case True
        with assms(1) False u Inr show ?thesis
          by (simp add: transitionToEnding_def Let_def m1_def)
      next
        case nz: False
        with assms(1) False u Inr have
          "enqueuePlaylistTracks now tracks
             (endingDisplayName (m1\<lparr> playback := snd (ClearQueue (playback m1)) \<rparr>))
             RequesterTypeEnding (m1\<lparr> playback := snd (ClearQueue (playback m1)) \<rparr>) = Inr m'"
          by (simp add: transitionToEnding_def Let_def m1_def case_prod_beta)
        from enqueuePlaylistTracks_frame [OF this] show ?thesis by simp
      qed
    qed
  next
    case False
    with assms(1) \<open>\<not> GetPhase (stateMgr m) \<noteq> PhaseActive\<close> show ?thesis
      by (simp add: transitionToEnding_def Let_def m1_def)
  qed
  with s1 False show ?thesis
    by (simp add: phase_not_regressed_def accepting_only_active_def GetPhase_def)
qed

lemma session_Stop_phase:
  assumes "session_Stop now endingTracks m = Inr m'"
    and "accepting_only_active (stateMgr m)"
  shows "phase_not_regressed (stateMgr m) (stateMgr m') \<and> accepting_only_active (stateMgr m')"
proof (cases "phase (stateMgr m)")
  case PhaseActive
  with assms(1) have "transitionToEnding now endingTracks m = Inr m'"
    by (simp add: session_Stop_def Let_def GetPhase_def)
  then show ?thesis using assms(2) by (rule transitionToEnding_phase)
qed (use assms in \<open>auto simp: session_Stop_def Let_def GetPhase_def SetPhase_def
       phase_not_regressed_def accepting_only_active_def close_done_def split: if_splits\<close>)

lemma phase_rank_le: "phase_rank p \<le> 3"
  by (cases p) simp_all

lemma close_done_stateMgr:
  "close_done m = Inr m' \<Longrightarrow> stateMgr m' = stateMgr m"
  by (auto simp: close_done_def split: if_splits)

lemma terminateSession_phase:
  assumes "terminateSession now m = Inr m'"
    and "accepting_only_active (stateMgr m)"
  shows "phase_not_regressed (stateMgr m) (stateMgr m') \<and> accepting_only_active (stateMgr m')"
proof (cases "phase (stateMgr m) = PhaseTerminated")
  case True
  with assms show ?thesis
    by (simp add: terminateSession_def GetPhase_def phase_not_regressed_refl)
next
  case False
  with assms(1) have "stateMgr m' =
      SetTimes (fst (GetTimes (StopAccepting (SetPhase PhaseTerminated (stateMgr m))))) (Some now)
        (StopAccepting (SetPhase PhaseTerminated (stateMgr m)))"
    by (auto simp: terminateSession_def Let_def GetPhase_def dest!: close_done_stateMgr)
  then show ?thesis
    by (simp add: SetPhase_def StopAccepting_def SetTimes_def GetTimes_def
        phase_not_regressed_def accepting_only_active_def phase_rank_le)
qed

lemma StopImmediate_phase:
  assumes "StopImmediate now m = Inr m'"
    and "accepting_only_active (stateMgr m)"
  shows "phase_not_regressed (stateMgr m) (stateMgr m') \<and> accepting_only_active (stateMgr m')"
proof (cases "phase (stateMgr m)")
  case PhaseWaiting
  with assms(1) have "stateMgr m' = SetPhase PhaseTerminated (stateMgr m)"
    by (auto simp: StopImmediate_def Let_def GetPhase_def dest!: close_done_stateMgr)
  with assms(2) PhaseWaiting show ?thesis
    by (simp add: SetPhase_def phase_not_regressed_def accepting_only_active_def)
next
  case PhaseActive
  with assms(1) have "stateMgr m' =
      SetTimes (fst (GetTimes (StopAccepting (SetPhase PhaseTerminated (stateMgr m))))) (Some now)
        (StopAccepting (SetPhase PhaseTerminated (stateMgr m)))"
    by (auto simp: StopImmediate_def Let_def GetPhase_def dest!: close_done_stateMgr)
  then show ?thesis
    by (simp add: SetPhase_def StopAccepting_def SetTimes_def GetTimes_def
        phase_not_regressed_def accepting_only_active_def phase_rank_le)
next
  case PhaseEnding
  with assms show ?thesis
    by (simp add: StopImmediate_def Let_def GetPhase_def phase_not_regressed_refl)
next
  case PhaseTerminated
  with assms show ?thesis
    by (simp add: StopImmediate_def Let_def GetPhase_def phase_not_regressed_refl)
qed

lemma endTimeChecker_tick_phase:
  assumes "endTimeChecker_tick now endingTracks m = Inr m'"
    and "accepting_only_active (stateMgr m)"
  shows "phase_not_regressed (stateMgr m) (stateMgr m') \<and> accepting_only_active (stateMgr m')"
proof (cases "transitionToEnding now endingTracks m = Inr m'")
  case True
  then show ?thesis using assms(2) by (rule transitionToEnding_phase)
next
  case False
  with assms(1) have "m' = m"
    by (auto simp: endTimeChecker_tick_def Let_def split: option.splits if_splits)
  with assms(2) show ?thesis by (simp add: phase_not_regressed_refl)
qed

lemma onQueueEmpty_phase:
  assumes "onQueueEmpty chain now responses m = Inr (started, m')"
    and "accepting_only_active (stateMgr m)"
  shows "phase_not_regressed (stateMgr m) (stateMgr m') \<and> accepting_only_active (stateMgr m')"
proof (cases "phase (stateMgr m) = PhaseEnding")
  case True
  with assms(1) have "terminateSession now m = Inr m'"
    by (auto simp: onQueueEmpty_def Let_def GetPhase_def and_then_def split: sum.splits)
  then show ?thesis using assms(2) by (rule terminateSession_phase)
next
  case False
  have "stateMgr m' = stateMgr m"
  proof (cases "phase (stateMgr m) = PhaseActive \<and> IsAccepting (stateMgr m)")
    case True
    with assms(1) False have "fillQueueWithBGM chain now responses m = Inr (started, m')"
      by (simp add: onQueueEmpty_def Let_def GetPhase_def)
    then show ?thesis by (rule fillQueueWithBGM_stateMgr)
  next
    case na: False
    with assms(1) False show ?thesis
      by (auto simp: onQueueEmpty_def Let_def GetPhase_def)
  qed
  with assms(2) show ?thesis by (simp add: phase_not_regressed_refl)
qed

lemma Start_begin_phase:
  "phase (stateMgr (snd (Start_begin now startT endT kws m))) = phase (stateMgr m)
   \<and> accepting (stateMgr (snd (Start_begin now startT endT kws m))) = accepting (stateMgr m)"
  by (simp add: Start_begin_def Let_def SetKeywords_def SetTimes_def split: option.splits)

lemma Start_prepare_phase:
  assumes "Start_prepare now plName created url openingTracks addOpening endingTracks m
             = Inr (err, m')"
  shows "phase (stateMgr m') = phase (stateMgr m)
     \<and> accepting (stateMgr m') = accepting (stateMgr m)"
proof (cases created)
  case (Inl e)
  with assms show ?thesis by (simp add: Start_prepare_def)
next
  case (Inr pid)
  define m1 where "m1 = m\<lparr> stateMgr := SetPlaylistInfo pid url plName (stateMgr m) \<rparr>"
  have p1: "phase (stateMgr m1) = phase (stateMgr m)"
    "accepting (stateMgr m1) = accepting (stateMgr m)"
    by (simp_all add: m1_def SetPlaylistInfo_def)
  define ending :: "session_Manager \<Rightarrow> spotify_error option \<times> session_Manager"
    where "ending = (\<lambda>m2.
                 if endingPlaylistURL m2 \<noteq> [] then
                   (case endingTracks of
                      Inl err \<Rightarrow> (Some err, m2)
                    | Inr tracks \<Rightarrow>
                        (None,
                         m2\<lparr> stateMgr :=
                               SetEndingDuration
                                 (foldl (\<lambda>d t. d + Duration t) 0 tracks) (stateMgr m2) \<rparr>))
                 else (None, m2))"
  have e: "phase (stateMgr (snd (ending m2))) = phase (stateMgr m2)
      \<and> accepting (stateMgr (snd (ending m2))) = accepting (stateMgr m2)" for m2
    by (simp add: ending_def SetEndingDuration_def split: sum.splits)
  have sp: "Start_prepare now plName created url openingTracks addOpening endingTracks m =
      (if config_OpeningPlaylistURL m1 \<noteq> [] then
                (case openingTracks of
                   Inl err \<Rightarrow> Inr (Some err, m1)
                 | Inr tracks \<Rightarrow>
                     and_then
                       (enqueuePlaylistTracks now tracks (config_OpeningDisplayName m1)
                          RequesterTypeOpening m1)
                       (\<lambda>m2. case addOpening of
                                Some err \<Rightarrow> Inr (Some err, m2)
                              | None \<Rightarrow> Inr (ending m2)))
              else Inr (ending m1))"
    by (simp add: Start_prepare_def Inr Let_def m1_def ending_def cong: sum.case_cong option.case_cong)
  show ?thesis
  proof (cases "config_OpeningPlaylistURL m1 \<noteq> []")
    case False
    with assms sp have "(err, m') = ending m1" by simp
    then have "m' = snd (ending m1)" by (metis snd_conv)
    with e [of m1] p1 show ?thesis by simp
  next
    case True
    show ?thesis
    proof (cases openingTracks)
      case (Inl e2)
      with assms sp True p1 show ?thesis by auto
    next
      case tr: (Inr tracks)
      with assms sp True obtain m2 where
        q: "enqueuePlaylistTracks now tracks (config_OpeningDisplayName m1)
              RequesterTypeOpening m1 = Inr m2"
        and r: "(case addOpening of Some err \<Rightarrow> Inr (Some err, m2)
                 | None \<Rightarrow> Inr (ending m2)) = (Inr (err, m') :: panic + _)"
        by (auto simp: and_then_def split: sum.splits)
      from enqueuePlaylistTracks_frame [OF q] have s2: "stateMgr m2 = stateMgr m1" by simp
      have "m' = m2 \<or> m' = snd (ending m2)"
      proof (cases addOpening)
        case None
        with r have "ending m2 = (err, m')" by simp
        then show ?thesis by simp
      next
        case (Some e3)
        with r show ?thesis by simp
      qed
      with e [of m2] s2 p1 show ?thesis by auto
    qed
  qed
qed

lemma session_step_phase:
  assumes "session_step chain m op = Inr m'"
    and "case op of OpStartActivate now startT endT \<Rightarrow> phase (stateMgr m) = PhaseWaiting
         | _ \<Rightarrow> True"
    and "accepting_only_active (stateMgr m)"
  shows "phase_not_regressed (stateMgr m) (stateMgr m') \<and> accepting_only_active (stateMgr m')"
proof (cases op)
  case (OpStartBegin now startT endT kws)
  with assms(1) have "m' = snd (Start_begin now startT endT kws m)" by simp
  with Start_begin_phase [of now startT endT kws m] assms(3) show ?thesis
    by (simp add: phase_not_regressed_def accepting_only_active_def)
next
  case (OpStartPrepare now plName created url openingTracks addOpening endingTracks)
  with assms(1) obtain err where
    "Start_prepare now plName created url openingTracks addOpening endingTracks m = Inr (err, m')"
    by (auto simp: and_then_def split: sum.splits)
  from Start_prepare_phase [OF this] assms(3) show ?thesis
    by (simp add: phase_not_regressed_def accepting_only_active_def)
next
  case (OpStartFill now responses)
  have "stateMgr m' = stateMgr m"
  proof (cases "config_OpeningPlaylistURL m = []")
    case True
    with assms(1) OpStartFill obtain started where
      "fillQueueWithBGM chain now responses m = Inr (started, m')"
      by (auto simp: and_then_def split: sum.splits)
    then show ?thesis by (rule fillQueueWithBGM_stateMgr)
  next
    case False
    with assms(1) OpStartFill show ?thesis by simp
  qed
  with assms(3) show ?thesis by (simp add: phase_not_regressed_refl)
next
  case (OpStartActivate now startT endT)
  with assms(2) have w: "phase (stateMgr m) = PhaseWaiting" by simp
  from assms(1) OpStartActivate have "m' = snd (Start_activate now startT endT m)" by simp
  with w show ?thesis
    by (simp add: Start_activate_def Let_def SetPhase_def StartAccepting_def SetTimes_def
        phase_not_regressed_def accepting_only_active_def)
next
  case (OpSessionStop now endingTracks)
  with assms(1) have "session_Stop now endingTracks m = Inr m'" by simp
  then show ?thesis using assms(3) by (rule session_Stop_phase)
next
  case (OpStopImmediate now)
  with assms(1) have "StopImmediate now m = Inr m'" by simp
  then show ?thesis using assms(3) by (rule StopImmediate_phase)
next
  case (OpEndTimeCheckerTick now endingTracks)
  with assms(1) have "endTimeChecker_tick now endingTracks m = Inr m'" by simp
  then show ?thesis using assms(3) by (rule endTimeChecker_tick_phase)
next
  case (OpQueueEmpty now responses)
  with assms(1) obtain started where
    "onQueueEmpty chain now responses m = Inr (started, m')"
    by (auto simp: and_then_def split: sum.splits)
  then show ?thesis using assms(3) by (rule onQueueEmpty_phase)
qed

text \<open>
  As long as the third part of \<^verbatim>\<open>Start\<close> runs on a session that is still
  waiting, no run of the operations takes the phase back or out of the terminated
  phase, and requests are accepted in the active phase only.
\<close>

lemma run_session_phase:
  "run_session chain m ops = Inr m' \<Longrightarrow> activates_while_waiting chain m ops \<Longrightarrow>
   accepting_only_active (stateMgr m) \<Longrightarrow>
   phase_not_regressed (stateMgr m) (stateMgr m') \<and> accepting_only_active (stateMgr m')"
proof (induction ops arbitrary: m)
  case Nil
  then show ?case by (simp add: phase_not_regressed_refl)
next
  case (Cons op ops)
  from Cons.prems(1) obtain m1 where
    s: "session_step chain m op = Inr m1" and r: "run_session chain m1 ops = Inr m'"
    by (auto simp: and_then_def split: sum.splits)
  from Cons.prems(2) s have
    g: "case op of OpStartActivate now startT endT \<Rightarrow> phase (stateMgr m) = PhaseWaiting
         | _ \<Rightarrow> True"
    and a: "activates_while_waiting chain m1 ops"
    by simp_all
  from session_step_phase [OF s g Cons.prems(3)] have
    1: "phase_not_regressed (stateMgr m) (stateMgr m1)" "accepting_only_active (stateMgr m1)"
    by simp_all
  from Cons.IH [OF r a 1(2)] 1(1) show ?case
    using phase_not_regressed_trans by blast
qed

text \<open>
  Claim C4.  The phase of a session never goes back along waiting, active, ending,
  terminated, nothing changes it once it is terminated, and requests are accepted only
  in the active phase.  \<^verbatim>\<open>Stop\<close>, \<^verbatim>\<open>StopImmediate\<close>, the ending transition
  and the termination on an empty queue all read the phase first and leave a terminated
  session alone; the third part of \<^verbatim>\<open>Start\<close> sets the phase to active and starts
  accepting whatever the phase is.  On the run below \<^verbatim>\<open>Start\<close> waits for its start
  time (the first component of \<open>Start_begin\<close>), \<^verbatim>\<open>Stop\<close> terminates the
  waiting session, and \<^verbatim>\<open>Start\<close>, whose wait ends with the timer since the context
  it waits on is its argument and not the one \<^verbatim>\<open>Stop\<close> cancels, creates the
  playlist without an error and makes the terminated session active and accepting.
  In the runs where the third part of \<^verbatim>\<open>Start\<close> finds the session waiting, the
  claim holds (\<open>run_session_phase\<close>).
\<close>

theorem Start_reactivates_terminated_session:
  "fst (Start_begin 0 (Some 60000000000) (Some 3600000000000) [] ex_waiting)
   \<and> (\<exists>m1 m2.
         run_session ex_chain ex_waiting ex_stop_during_start = Inr m1
         \<and> phase (stateMgr m1) = PhaseTerminated
         \<and> accepting (stateMgr m1) = NotAccepting
         \<and> done_closed m1
         \<and> (\<exists>m'. Start_prepare 60000000000 ''Session'' (Inr ''pl1'')
                    ''https://open.spotify.com/playlist/pl1''
                    (Inr [qt_Track ex_qtA]) None (Inr [ex_trackC]) m1 = Inr (None, m'))
         \<and> run_session ex_chain ex_waiting (ex_stop_during_start @ ex_start_resumes) = Inr m2
         \<and> phase (stateMgr m2) = PhaseActive
         \<and> accepting (stateMgr m2) = Accepting
         \<and> phase_rank (phase (stateMgr m2)) < phase_rank (phase (stateMgr m1)))"
proof -
  have w: "fst (Start_begin 0 (Some 60000000000) (Some 3600000000000) [] ex_waiting)"
    by code_simp
  have a: "case run_session ex_chain ex_waiting ex_stop_during_start of
             Inl p \<Rightarrow> False
           | Inr m1 \<Rightarrow> phase (stateMgr m1) = PhaseTerminated
               \<and> accepting (stateMgr m1) = NotAccepting
               \<and> done_closed m1
               \<and> (case Start_prepare 60000000000 ''Session'' (Inr ''pl1'')
                      ''https://open.spotify.com/playlist/pl1''
                      (Inr [qt_Track ex_qtA]) None (Inr [ex_trackC]) m1 of
                    Inl p \<Rightarrow> False
                  | Inr (err, m') \<Rightarrow> err = None)"
    by code_simp
  have b: "case run_session ex_chain ex_waiting (ex_stop_during_start @ ex_start_resumes) of
             Inl p \<Rightarrow> False
           | Inr m2 \<Rightarrow> phase (stateMgr m2) = PhaseActive \<and> accepting (stateMgr m2) = Accepting"
    by code_simp
  from a obtain m1 where m1: "run_session ex_chain ex_waiting ex_stop_during_start = Inr m1"
    "phase (stateMgr m1) = PhaseTerminated" "accepting (stateMgr m1) = NotAccepting"
    "done_closed m1"
    and p: "case Start_prepare 60000000000 ''Session'' (Inr ''pl1'')
                      ''https://open.spotify.com/playlist/pl1''
                      (Inr [qt_Track ex_qtA]) None (Inr [ex_trackC]) m1 of
                    Inl p \<Rightarrow> False
                  | Inr (err, m') \<Rightarrow> err = None"
    by (auto split: sum.splits)
  from p obtain m' where m': "Start_prepare 60000000000 ''Session'' (Inr ''pl1'')
                      ''https://open.spotify.com/playlist/pl1''
                      (Inr [qt_Track ex_qtA]) None (Inr [ex_trackC]) m1 = Inr (None, m')"
    by (auto split: sum.splits prod.splits)
  from b obtain m2 where m2:
    "run_session ex_chain ex_waiting (ex_stop_during_start @ ex_start_resumes) = Inr m2"
    "phase (stateMgr m2) = PhaseActive" "accepting (stateMgr m2) = Accepting"
    by (auto split: sum.splits)
  have "phase_rank (phase (stateMgr m2)) < phase_rank (phase (stateMgr m1))"
    using m1 m2 by simp
  with w m1 m' m2 show ?thesis by blast
qed

text \<open>
  On the session re-activated in this way the \<^verbatim>\<open>done\<close> channel is already closed,
  so the next \<^verbatim>\<open>StopImmediate\<close> panics when it closes the channel again.
\<close>

lemma StopImmediate_after_reactivation_panics:
  "run_session ex_chain ex_waiting
     (ex_stop_during_start @ ex_start_resumes @ [OpStopImmediate 70000000000])
   = Inl CloseOfClosedChannel"
proof -
  have "case run_session ex_chain ex_waiting
          (ex_stop_during_start @ ex_start_resumes @ [OpStopImmediate 70000000000]) of
          Inl p \<Rightarrow> p = CloseOfClosedChannel
        | Inr m \<Rightarrow> False"
    by code_simp
  then show ?thesis by (auto split: sum.splits)
qed

section \<open>Subscriptions that begin during a broadcast\<close>

text \<open>
  Run without another operation between its two critical sections, \<^verbatim>\<open>Broadcast\<close>
  is the allocation followed by the fan-out.
\<close>

lemma Broadcast_two_steps:
  "Broadcast notification m =
     (case Broadcast_allocate notification m of (stamped, m1) \<Rightarrow>
        (stamped, Broadcast_fanout stamped m1))"
  by (simp add: Broadcast_def Broadcast_allocate_def Broadcast_fanout_def Let_def)

lemma stamped_from_append:
  "stamped_from k (xs @ ys) = stamped_from k xs @ stamped_from (k + of_nat (length xs)) ys"
  by (induction xs arbitrary: k) (simp_all add: add.assoc)

lemma stamped_from_above:
  "unat k + length bs < 2 ^ 64 \<Longrightarrow> list_all (\<lambda>n. k < SequenceNo n) (stamped_from k bs)"
proof (induction bs arbitrary: k)
  case Nil
  then show ?case by simp
next
  case (Cons b bs)
  have step: "unat (k + 1) = unat k + 1"
    using Cons.prems by (intro unat_succ_64) simp
  then have lt: "k < k + 1" by (simp add: word_less_nat_alt)
  have "list_all (\<lambda>n. k + 1 < SequenceNo n) (stamped_from (k + 1) bs)"
    using Cons.IH [of "k + 1"] Cons.prems step by simp
  then have "list_all (\<lambda>n. k < SequenceNo n) (stamped_from (k + 1) bs)"
    using lt by (auto simp: list_all_iff)
  with lt show ?case by simp
qed

lemma Broadcast_all_effect:
  "sequenceNo (Broadcast_all bs m) = sequenceNo m + of_nat (length bs)
   \<and> subscriptions (Broadcast_all bs m) sid =
       map_option (\<lambda>a. foldl (\<lambda>a n. adapter_Send n a) a (stamped_from (sequenceNo m) bs))
         (subscriptions m sid)"
proof (induction bs arbitrary: m)
  case Nil
  then show ?case by (simp add: Broadcast_all_def option.map_ident)
next
  case (Cons b bs)
  define m1 where "m1 = snd (Broadcast b m)"
  have 1: "sequenceNo m1 = sequenceNo m + 1"
    "subscriptions m1 sid =
       map_option (adapter_Send (b\<lparr> SequenceNo := sequenceNo m + 1 \<rparr>)) (subscriptions m sid)"
    by (simp_all add: m1_def Broadcast_def Let_def)
  have "Broadcast_all (b # bs) m = Broadcast_all bs m1"
    by (simp add: Broadcast_all_def m1_def)
  with Cons.IH [of m1] 1 show ?case
    by (simp add: option.map_comp comp_def add.assoc)
qed

lemma adapter_Send_buffered:
  "\<not> ready a \<Longrightarrow>
   foldl (\<lambda>a n. adapter_Send n a) a ns = a\<lparr> buffer := buffer a @ ns \<rparr>"
  by (induction ns arbitrary: a) (simp_all add: adapter_Send_def)

lemma adapter_Send_direct:
  "ready a \<Longrightarrow>
   foldl (\<lambda>a n. adapter_Send n a) a ns = a\<lparr> stream := stream a @ ns \<rparr>"
  by (induction ns arbitrary: a) (simp_all add: adapter_Send_def stream_Send_def)

lemma adapter_Flush_effect:
  "adapter_Flush a = a\<lparr> stream := stream a @ buffer a, buffer := [], ready := True \<rparr>"
proof -
  have "foldl (\<lambda>a n. stream_Send n a) b ns = b\<lparr> stream := stream b @ ns \<rparr>"
    for b :: "'a notificationStreamAdapter" and ns
    by (induction ns arbitrary: b) (simp_all add: stream_Send_def)
  then show ?thesis by (simp add: adapter_Flush_def)
qed

text \<open>
  When every broadcast is completed before the next operation begins, the buffering
  handler keeps the promise: the stream is \<^verbatim>\<open>INITIAL_STATE\<close> followed by all the
  broadcasts since the subscription, in the order of their numbers, which are above
  that of \<^verbatim>\<open>INITIAL_STATE\<close>.
\<close>

lemma SubscribeNotifications_among_received:
  "received sid (SubscribeNotifications_among sid status bs1 bs2 bs3 m) =
     initialNotification (sequenceNo m + 1) status
       # stamped_from (sequenceNo m + 1) (bs1 @ bs2 @ bs3)"
proof -
  define n where "n = sequenceNo m + 1"
  define m1 where "m1 = snd (SubscribeNotifications_subscribe sid m)"
  have s: "SubscribeNotifications_subscribe sid m = ((sid, n), m1)"
    by (simp add: m1_def n_def SubscribeNotifications_subscribe_def Subscribe_sequenceNo_def
        Subscribe_def NextSequenceNo_def)
  have m1: "sequenceNo m1 = n" "subscriptions m1 sid = Some new_adapter"
    by (simp_all add: m1_def n_def SubscribeNotifications_subscribe_def
        Subscribe_sequenceNo_def Subscribe_def NextSequenceNo_def)
  define m2 where "m2 = Broadcast_all bs1 m1"
  have m2: "sequenceNo m2 = n + of_nat (length bs1)"
    "subscriptions m2 sid = Some (new_adapter\<lparr> buffer := stamped_from n bs1 \<rparr>)"
    using Broadcast_all_effect [of bs1 m1 sid] m1
    by (simp_all add: m2_def adapter_Send_buffered new_adapter_def)
  define m3 where "m3 = SubscribeNotifications_send sid n status m2"
  have m3: "sequenceNo m3 = n + of_nat (length bs1)"
    "subscriptions m3 sid =
       Some \<lparr> stream = [initialNotification n status], buffer = stamped_from n bs1,
              ready = False \<rparr>"
    using m2
    by (simp_all add: m3_def SubscribeNotifications_send_def with_adapter_def stream_Send_def
        new_adapter_def)
  define m4 where "m4 = Broadcast_all bs2 m3"
  have m4: "sequenceNo m4 = n + of_nat (length bs1) + of_nat (length bs2)"
    "subscriptions m4 sid =
       Some \<lparr> stream = [initialNotification n status],
              buffer = stamped_from n bs1 @ stamped_from (n + of_nat (length bs1)) bs2,
              ready = False \<rparr>"
    using Broadcast_all_effect [of bs2 m3 sid] m3
    by (simp_all add: m4_def adapter_Send_buffered)
  define m5 where "m5 = SubscribeNotifications_flush sid m4"
  have m5: "sequenceNo m5 = n + of_nat (length bs1) + of_nat (length bs2)"
    "subscriptions m5 sid =
       Some \<lparr> stream = initialNotification n status
                # stamped_from n bs1 @ stamped_from (n + of_nat (length bs1)) bs2,
              buffer = [], ready = True \<rparr>"
    using m4
    by (simp_all add: m5_def SubscribeNotifications_flush_def with_adapter_def
        adapter_Flush_effect)
  have "subscriptions (Broadcast_all bs3 m5) sid =
       Some \<lparr> stream = initialNotification n status
                # stamped_from n bs1 @ stamped_from (n + of_nat (length bs1)) bs2
                  @ stamped_from (n + of_nat (length bs1) + of_nat (length bs2)) bs3,
              buffer = [], ready = True \<rparr>"
    using Broadcast_all_effect [of bs3 m5 sid] m5
    by (simp add: adapter_Send_direct)
  moreover have "SubscribeNotifications_among sid status bs1 bs2 bs3 m = Broadcast_all bs3 m5"
    by (simp add: SubscribeNotifications_among_def s m5_def m4_def m3_def m2_def)
  ultimately show ?thesis
    by (simp add: received_def stamped_from_append n_def add.assoc)
qed

lemma SubscribeNotifications_among_initial_state_first:
  assumes "unat (sequenceNo m) + 1 + length (bs1 @ bs2 @ bs3) < 2 ^ 64"
  shows "initial_state_first (received sid (SubscribeNotifications_among sid status bs1 bs2 bs3 m))"
proof -
  have step: "unat (sequenceNo m + 1) = unat (sequenceNo m) + 1"
    using assms by (intro unat_succ_64) simp
  then have "unat (sequenceNo m + 1) + length (bs1 @ bs2 @ bs3) < 2 ^ 64"
    using assms by simp
  from stamped_from_above [OF this]
  have "list_all (\<lambda>k. sequenceNo m + 1 \<le> SequenceNo k)
          (stamped_from (sequenceNo m + 1) (bs1 @ bs2 @ bs3))"
    by (auto simp: list_all_iff)
  then show ?thesis
    by (simp add: SubscribeNotifications_among_received initial_state_first_def
        initialNotification_def)
qed

text \<open>
  Claim C2.  A subscriber's stream begins with \<^verbatim>\<open>INITIAL_STATE\<close> and nothing after
  it is numbered below it.  A broadcast takes its number under \<^verbatim>\<open>sequenceNoMu\<close> and
  copies the subscriptions afterwards, under \<^verbatim>\<open>mu\<close>.  When a subscription begins
  between the two, it is given the next, higher number for its \<^verbatim>\<open>INITIAL_STATE\<close>,
  and the broadcast, which finds the subscriber registered, is handed to its adapter:
  the buffering handler flushes it after \<^verbatim>\<open>INITIAL_STATE\<close>, and with the earlier
  handler it is written to the stream after \<^verbatim>\<open>INITIAL_STATE\<close>.  In both cases the
  subscriber receives number 2 followed by number 1.  With the broadcast completed
  before the subscription begins the stream is as promised, as it is whenever no
  broadcast is between its two critical sections while the subscription begins
  (\<open>SubscribeNotifications_among_initial_state_first\<close>).
\<close>

theorem Broadcast_delivered_below_INITIAL_STATE:
  "received ''sub-1'' ex_subscribe_during_broadcast =
     [\<lparr> SequenceNo = 2, Type = NOTIFICATION_TYPE_INITIAL_STATE, Info = () \<rparr>,
      \<lparr> SequenceNo = 1, Type = NOTIFICATION_TYPE_CHANGE_STATE, Info = () \<rparr>]
   \<and> \<not> initial_state_first (received ''sub-1'' ex_subscribe_during_broadcast)
   \<and> received ''sub-1'' ex_earlier_subscribe_during_broadcast =
     [\<lparr> SequenceNo = 2, Type = NOTIFICATION_TYPE_INITIAL_STATE, Info = () \<rparr>,
      \<lparr> SequenceNo = 1, Type = NOTIFICATION_TYPE_CHANGE_STATE, Info = () \<rparr>]
   \<and> \<not> initial_state_first (received ''sub-1'' ex_earlier_subscribe_during_broadcast)
   \<and> initial_state_first (received ''sub-1'' ex_subscribe_after_broadcast)"
  by code_simp

end
